theory Spec2Isabelle
  imports Main
begin

section \<open>Python text\<close>

text \<open>
  Both modules work on Python unicode strings (\<^verbatim>\<open>unicode_literals\<close>): a string is a
  sequence of code points, written here as natural numbers.  String literals of the source
  are written \<open>ustr ''...''\<close>.
\<close>

type_synonym codepoint = nat
type_synonym str = "codepoint list"

definition ustr :: "string \<Rightarrow> str" where
  "ustr cs = map of_char cs"

definition LF :: codepoint where
  "LF = 10"

definition CR :: codepoint where
  "CR = 13"

definition SP :: codepoint where
  "SP = 32"

definition TAB :: codepoint where
  "TAB = 9"

text \<open>
  The line boundaries of \<^verbatim>\<open>str.splitlines\<close>: LF, VT, FF, CR, FS, GS, RS, NEL, LS and PS
  (and CR LF, read as one boundary).
\<close>

definition is_linebreak :: "codepoint \<Rightarrow> bool" where
  "is_linebreak c = (c \<in> set [10, 11, 12, 13, 28, 29, 30, 133, 8232, 8233])"

text \<open>The characters \<^verbatim>\<open>str.strip()\<close> removes: those for which \<^verbatim>\<open>str.isspace\<close> holds.\<close>

definition is_space :: "codepoint \<Rightarrow> bool" where
  "is_space c =
     ((9 \<le> c \<and> c \<le> 13) \<or> (28 \<le> c \<and> c \<le> 32) \<or> c = 133 \<or> c = 160 \<or> c = 5760 \<or>
      (8192 \<le> c \<and> c \<le> 8202) \<or> c = 8232 \<or> c = 8233 \<or> c = 8239 \<or> c = 8287 \<or> c = 12288)"

text \<open>
  \<^verbatim>\<open>str.splitlines(keepends)\<close>: \<open>cur\<close> is the line read so far.  A last line without a
  terminator is kept unless it is empty.
\<close>

fun splitlines_from :: "bool \<Rightarrow> str \<Rightarrow> str \<Rightarrow> str list" where
  "splitlines_from keepends cur [] = (if cur = [] then [] else [cur])"
| "splitlines_from keepends cur [c] =
     (if is_linebreak c then [cur @ (if keepends then [c] else [])]
      else [cur @ [c]])"
| "splitlines_from keepends cur (c # d # cs) =
     (if is_linebreak c then
        (if c = CR \<and> d = LF
         then (cur @ (if keepends then [c, d] else [])) # splitlines_from keepends [] cs
         else (cur @ (if keepends then [c] else [])) # splitlines_from keepends [] (d # cs))
      else splitlines_from keepends (cur @ [c]) (d # cs))"

definition splitlines :: "bool \<Rightarrow> str \<Rightarrow> str list" where
  "splitlines keepends s = splitlines_from keepends [] s"

definition strip :: "str \<Rightarrow> str" where
  "strip s = rev (dropWhile is_space (rev (dropWhile is_space s)))"

text \<open>\<^verbatim>\<open>sep.join(xs)\<close>; \<^verbatim>\<open>''.join(xs)\<close> is \<open>concat xs\<close>.\<close>

fun join :: "str \<Rightarrow> str list \<Rightarrow> str" where
  "join sep [] = []"
| "join sep [x] = x"
| "join sep (x # y # ys) = x @ sep @ join sep (y # ys)"

section \<open>doctree2md: the buffer engine\<close>

text \<open>
  The Python lists that the translator shares by reference (\<^verbatim>\<open>head\<close>, \<^verbatim>\<open>body\<close>,
  \<^verbatim>\<open>foot\<close> and the \<^verbatim>\<open>content\<close> list of every \<^verbatim>\<open>IndentLevel\<close>) live in a store: an
  address names a list object, and \<^verbatim>\<open>append\<close> updates the store at that address.
\<close>

type_synonym addr = nat

datatype error = IndexError | KeyError | TypeError | AttributeError | NotImplementedError

datatype section_name = Head | Body | Foot

definition head_addr :: addr where
  "head_addr = 0"

definition body_addr :: addr where
  "body_addr = 1"

definition foot_addr :: addr where
  "foot_addr = 2"

text \<open>The lookup table \<^verbatim>\<open>self._lists\<close>.\<close>

fun lists_of :: "section_name \<Rightarrow> addr" where
  "lists_of Head = head_addr"
| "lists_of Body = body_addr"
| "lists_of Foot = foot_addr"

record IndentLevel =
  base :: addr
  prefix :: str
  first_prefix :: str
  content :: addr

datatype docval = DStr str | DList "str list"

record translator =
  heap :: "addr \<Rightarrow> str list"
  next_addr :: addr
  section_level :: int
  list_prefixes :: "str list"
  indent_levels :: "IndentLevel list"
  docinfo :: "string \<Rightarrow> docval option"
  warned :: "string set"
  reporter_warnings :: "str list"

definition list_append :: "addr \<Rightarrow> str \<Rightarrow> 'a translator_scheme \<Rightarrow> 'a translator_scheme" where
  "list_append a x s = s\<lparr>heap := (heap s)(a := heap s a @ [x])\<rparr>"

definition init_docinfo :: "string \<Rightarrow> docval option" where
  "init_docinfo =
     [''title'' \<mapsto> DStr [], ''subtitle'' \<mapsto> DStr [], ''author'' \<mapsto> DList [],
      ''date'' \<mapsto> DStr [], ''copyright'' \<mapsto> DStr [], ''version'' \<mapsto> DStr []]"

definition reset :: "'a translator_scheme \<Rightarrow> 'a translator_scheme" where
  "reset s =
     s\<lparr>heap := (heap s)(head_addr := [], body_addr := [], foot_addr := []),
       section_level := 0,
       list_prefixes := [],
       indent_levels := [],
       docinfo := init_docinfo\<rparr>"

text \<open>
  \<^verbatim>\<open>IndentLevel.write\<close>: the method of the level \<open>lvl\<close>, run on the store of \<open>s\<close>.
\<close>

definition IndentLevel_write :: "IndentLevel \<Rightarrow> 'a translator_scheme \<Rightarrow> 'a translator_scheme" where
  "IndentLevel_write lvl s =
     (let string = concat (heap s (content lvl));
          lines = splitlines True string
      in if length lines = 0 then s
         else
           (let texts = [first_prefix lvl @ hd lines] @
                  map (\<lambda>line. if strip line = [] then [LF] else prefix lvl @ line) (tl lines)
            in list_append (base lvl) (concat texts) s))"

definition drop_eol :: "addr \<Rightarrow> 'a translator_scheme \<Rightarrow> 'a translator_scheme" where
  "drop_eol a s =
     (if heap s a \<noteq> [] \<and> last (heap s a) = [LF]
      then s\<lparr>heap := (heap s)(a := butlast (heap s a))\<rparr> else s)"

definition drop_trailing_eols :: "'a translator_scheme \<Rightarrow> 'a translator_scheme" where
  "drop_trailing_eols s = drop_eol foot_addr (drop_eol body_addr (drop_eol head_addr s))"

definition astext :: "'a translator_scheme \<Rightarrow> str \<times> 'a translator_scheme" where
  "astext s =
     (let s' = drop_trailing_eols s
      in (concat (heap s' head_addr @ heap s' body_addr @ heap s' foot_addr), s'))"

definition get_current_output :: "section_name \<Rightarrow> 'a translator_scheme \<Rightarrow> addr" where
  "get_current_output section s =
     (if indent_levels s \<noteq> [] then content (last (indent_levels s)) else lists_of section)"

definition ensure_eol :: "'a translator_scheme \<Rightarrow> 'a translator_scheme" where
  "ensure_eol s =
     (let out = heap s (get_current_output Body s)
      in if out \<noteq> [] \<and> last out \<noteq> [] \<and> last (last out) \<noteq> LF
         then list_append (get_current_output Body s) [LF] s else s)"

definition add :: "str \<Rightarrow> section_name \<Rightarrow> 'a translator_scheme \<Rightarrow> 'a translator_scheme" where
  "add string section s = list_append (get_current_output section s) string s"

definition add_section :: "str \<Rightarrow> section_name \<Rightarrow> 'a translator_scheme \<Rightarrow> 'a translator_scheme" where
  "add_section string section s = list_append (lists_of section) string s"

text \<open>
  \<^verbatim>\<open>start_level\<close>: the new level's \<^verbatim>\<open>content\<close> is a fresh, empty list; its \<^verbatim>\<open>base\<close>
  is the list object on top when it is created.  \<open>first_prefix = None\<close> stands for the
  default argument.
\<close>

definition start_level ::
  "str \<Rightarrow> str option \<Rightarrow> section_name \<Rightarrow> 'a translator_scheme \<Rightarrow> 'a translator_scheme" where
  "start_level pfx first section s =
     (let b = (if indent_levels s \<noteq> [] then content (last (indent_levels s)) else lists_of section);
          level = \<lparr>base = b, prefix = pfx,
                   first_prefix = (case first of None \<Rightarrow> pfx | Some fp \<Rightarrow> fp),
                   content = next_addr s\<rparr>
      in s\<lparr>heap := (heap s)(next_addr s := []),
           next_addr := Suc (next_addr s),
           indent_levels := indent_levels s @ [level]\<rparr>)"

definition finish_level :: "'a translator_scheme \<Rightarrow> error + 'a translator_scheme" where
  "finish_level s =
     (if indent_levels s = [] then Inl IndexError
      else Inr (IndentLevel_write (last (indent_levels s))
                  (s\<lparr>indent_levels := butlast (indent_levels s)\<rparr>)))"

section \<open>The document tree\<close>

text \<open>
  The input of both translators is a docutils document tree, which the source only reads.
  A node is a text leaf or an element with its class name (\<^verbatim>\<open>node.__class__.__name__\<close>),
  its \<^verbatim>\<open>classes\<close> attribute (a list every element has), its other attributes, the
  \<^verbatim>\<open>child_text_separator\<close> of its class (empty for text elements such as paragraphs,
  titles, comments and literal blocks; a blank line for the others) and its children.
\<close>

datatype aval = AStr str | AInt int

datatype node =
    Text str
  | Element string "str list" "(string \<times> aval) list" str "node list"

fun kind :: "node \<Rightarrow> string" where
  "kind (Text t) = ''Text''"
| "kind (Element k cls attrs sep cs) = k"

fun classes :: "node \<Rightarrow> str list" where
  "classes (Text t) = []"
| "classes (Element k cls attrs sep cs) = cls"

fun attributes :: "node \<Rightarrow> (string \<times> aval) list" where
  "attributes (Text t) = []"
| "attributes (Element k cls attrs sep cs) = attrs"

text \<open>\<^verbatim>\<open>node.astext()\<close>: the text of a leaf; the children's texts joined for an element.\<close>

fun node_astext :: "node \<Rightarrow> str" where
  "node_astext (Text t) = t"
| "node_astext (Element k cls attrs sep cs) = join sep (map node_astext cs)"

text \<open>\<^verbatim>\<open>key in node\<close> and \<^verbatim>\<open>node.hasattr(key)\<close>; \<^verbatim>\<open>node[key]\<close> raises KeyError.\<close>

definition hasattr :: "node \<Rightarrow> string \<Rightarrow> bool" where
  "hasattr n key = (map_of (attributes n) key \<noteq> None)"

definition getitem :: "node \<Rightarrow> string \<Rightarrow> error + aval" where
  "getitem n key = (case map_of (attributes n) key of None \<Rightarrow> Inl KeyError | Some v \<Rightarrow> Inr v)"

text \<open>\<^verbatim>\<open>str(v)\<close>, as \<^verbatim>\<open>%s\<close> and \<^verbatim>\<open>format\<close> print an attribute.\<close>

fun dec_nat :: "nat \<Rightarrow> str" where
  "dec_nat n = (if n < 10 then [48 + n] else dec_nat (n div 10) @ [48 + n mod 10])"

fun py_str :: "aval \<Rightarrow> str" where
  "py_str (AStr t) = t"
| "py_str (AInt i) = (if i < 0 then ustr ''-'' @ dec_nat (nat (- i)) else dec_nat (nat i))"

section \<open>doctree2md: the visitor methods\<close>

text \<open>
  A visit method returns normally or raises \<^verbatim>\<open>nodes.SkipNode\<close>, which tells the traversal to
  visit neither the children nor the departure method of the node.
\<close>

datatype signal = Proceed | SkipNode

type_synonym 'a visit = "string option \<Rightarrow> node \<Rightarrow> 'a \<Rightarrow> error + signal \<times> 'a"
type_synonym 'a depart = "node \<Rightarrow> 'a \<Rightarrow> error + 'a"

definition PREF_SUFF_ELEMENTS :: "(string \<times> str \<times> str) list" where
  "PREF_SUFF_ELEMENTS =
     [(''emphasis'', ustr ''*'', ustr ''*''),
      (''problematic'', [LF, LF], [LF, LF]),
      (''strong'', ustr ''**'', ustr ''**''),
      (''literal'', [96], [96]),
      (''math'', ustr ''$'', ustr ''$''),
      (''subscript'', ustr ''<sub>'', ustr ''</sub>''),
      (''superscript'', ustr ''<sup>'', ustr ''</sup>'')]"

definition PASS_THRU_ELEMENTS :: "string list" where
  "PASS_THRU_ELEMENTS = [''document'', ''container'', ''target'', ''inline'']"

definition std_indent :: str where
  "std_indent = ustr ''    ''"

definition visit_Text :: "node \<Rightarrow> 'a translator_scheme \<Rightarrow> 'a translator_scheme" where
  "visit_Text n s = add (node_astext n) Body s"

definition visit_comment :: "node \<Rightarrow> 'a translator_scheme \<Rightarrow> signal \<times> 'a translator_scheme" where
  "visit_comment n s = (SkipNode, add (ustr ''<!-- '' @ node_astext n @ ustr '' -->'' @ [LF]) Body s)"

definition visit_docinfo_item ::
  "node \<Rightarrow> string \<Rightarrow> 'a translator_scheme \<Rightarrow> error + signal \<times> 'a translator_scheme" where
  "visit_docinfo_item n name s =
     (if name = ''author'' then
        (case docinfo s name of
           None \<Rightarrow> Inl KeyError
         | Some (DStr t) \<Rightarrow> Inl AttributeError
         | Some (DList xs) \<Rightarrow>
             Inr (SkipNode, s\<lparr>docinfo := (docinfo s)(name \<mapsto> DList (xs @ [node_astext n]))\<rparr>))
      else Inr (SkipNode, s\<lparr>docinfo := (docinfo s)(name \<mapsto> DStr (node_astext n))\<rparr>))"

definition depart_paragraph :: "'a translator_scheme \<Rightarrow> 'a translator_scheme" where
  "depart_paragraph s = add [LF] Body (ensure_eol s)"

definition visit_math_block :: "'a translator_scheme \<Rightarrow> 'a translator_scheme" where
  "visit_math_block s = add (ustr ''$$'' @ [LF]) Body s"

definition depart_math_block :: "'a translator_scheme \<Rightarrow> 'a translator_scheme" where
  "depart_math_block s = add (ustr ''$$'' @ [LF, LF]) Body (ensure_eol s)"

definition visit_literal_block :: "node \<Rightarrow> 'a translator_scheme \<Rightarrow> error + 'a translator_scheme" where
  "visit_literal_block n s =
     (if ustr ''code'' \<in> set (classes n) then
        (if length (classes n) < 2 then Inl IndexError
         else Inr (add ([96, 96, 96] @ classes n ! 1 @ [LF]) Body s))
      else Inr (add ([96, 96, 96] @ [] @ [LF]) Body s))"

definition depart_literal_block :: "'a translator_scheme \<Rightarrow> 'a translator_scheme" where
  "depart_literal_block s = add ([96, 96, 96] @ [LF, LF]) Body (ensure_eol s)"

definition visit_block_quote :: "'a translator_scheme \<Rightarrow> 'a translator_scheme" where
  "visit_block_quote s = start_level (ustr ''> '') None Body s"

definition depart_block_quote :: "'a translator_scheme \<Rightarrow> error + 'a translator_scheme" where
  "depart_block_quote s = finish_level s"

definition visit_section :: "'a translator_scheme \<Rightarrow> 'a translator_scheme" where
  "visit_section s = s\<lparr>section_level := section_level s + 1\<rparr>"

definition depart_section :: "'a translator_scheme \<Rightarrow> 'a translator_scheme" where
  "depart_section s = s\<lparr>section_level := section_level s - 1\<rparr>"

definition visit_enumerated_list :: "'a translator_scheme \<Rightarrow> 'a translator_scheme" where
  "visit_enumerated_list s = s\<lparr>list_prefixes := list_prefixes s @ [ustr ''1. '']\<rparr>"

definition depart_enumerated_list :: "'a translator_scheme \<Rightarrow> error + 'a translator_scheme" where
  "depart_enumerated_list s =
     (if list_prefixes s = [] then Inl IndexError
      else Inr (s\<lparr>list_prefixes := butlast (list_prefixes s)\<rparr>))"

definition visit_bullet_list :: "'a translator_scheme \<Rightarrow> 'a translator_scheme" where
  "visit_bullet_list s = s\<lparr>list_prefixes := list_prefixes s @ [ustr ''* '']\<rparr>"

definition depart_bullet_list :: "'a translator_scheme \<Rightarrow> error + 'a translator_scheme" where
  "depart_bullet_list = depart_enumerated_list"

definition visit_list_item :: "'a translator_scheme \<Rightarrow> error + 'a translator_scheme" where
  "visit_list_item s =
     (if list_prefixes s = [] then Inl IndexError
      else
        (let first_prefix = last (list_prefixes s);
             prefix = replicate (length first_prefix) SP
         in Inr (start_level prefix (Some first_prefix) Body s)))"

definition depart_list_item :: "'a translator_scheme \<Rightarrow> error + 'a translator_scheme" where
  "depart_list_item s = finish_level s"

text \<open>\<open>parent\<close> is the class name of \<^verbatim>\<open>node.parent\<close> (\<open>None\<close> at the root).\<close>

definition visit_subtitle ::
  "string option \<Rightarrow> node \<Rightarrow> 'a translator_scheme \<Rightarrow> error + signal \<times> 'a translator_scheme" where
  "visit_subtitle parent n s =
     (if parent = Some ''document'' then visit_docinfo_item n ''subtitle'' s
      else Inr (Proceed, s))"

text \<open>
  \<^verbatim>\<open>visit_system_message\<close>; the dictionary \<^verbatim>\<open>attr\<close> it fills is never read and is left out.
\<close>

definition visit_system_message :: "node \<Rightarrow> 'a translator_scheme \<Rightarrow> error + 'a translator_scheme" where
  "visit_system_message n s =
     (case (if hasattr n ''line''
            then (case getitem n ''line'' of Inl e \<Rightarrow> Inl e
                  | Inr v \<Rightarrow> Inr (ustr '', line '' @ py_str v))
            else Inr []) of
        Inl e \<Rightarrow> Inl e
      | Inr line \<Rightarrow>
     (case getitem n ''type'' of Inl e \<Rightarrow> Inl e | Inr ty \<Rightarrow>
     (case getitem n ''level'' of Inl e \<Rightarrow> Inl e | Inr lv \<Rightarrow>
     (case getitem n ''source'' of Inl e \<Rightarrow> Inl e | Inr src \<Rightarrow>
        Inr (add ([34] @ ustr ''System Message: '' @ py_str ty @ ustr ''/'' @ py_str lv @
                  ustr '' ('' @ py_str src @ ustr '':'' @ line @ ustr '')'' @ [34, LF]) Body s)))))"

definition visit_title :: "node \<Rightarrow> 'a translator_scheme \<Rightarrow> 'a translator_scheme" where
  "visit_title n s =
     (if section_level s = 0 then
        (let s1 = add_section (ustr ''# '') Head s
         in s1\<lparr>docinfo := (docinfo s1)(''title'' \<mapsto> DStr (node_astext n))\<rparr>)
      else add (concat (replicate (nat (section_level s + 1)) (ustr ''#'')) @ ustr '' '') Body s)"

definition depart_title :: "'a translator_scheme \<Rightarrow> 'a translator_scheme" where
  "depart_title s = add [LF] Body (ensure_eol s)"

definition visit_transition :: "'a translator_scheme \<Rightarrow> signal \<times> 'a translator_scheme" where
  "visit_transition s = (SkipNode, add ([LF] @ ustr ''---'' @ [LF, LF]) Body s)"

definition visit_reference :: "node \<Rightarrow> 'a translator_scheme \<Rightarrow> error + signal \<times> 'a translator_scheme" where
  "visit_reference n s =
     (if \<not> hasattr n ''refuri'' then Inr (Proceed, s)
      else
        (case getitem n ''refuri'' of
           Inl e \<Rightarrow> Inl e
         | Inr uri \<Rightarrow>
             Inr (SkipNode,
                  add (ustr ''['' @ node_astext n @ ustr '']('' @ py_str uri @ ustr '')'') Body s)))"

text \<open>
  \<^verbatim>\<open>unknown_visit\<close>.  \<^verbatim>\<open>document.reporter.warning(msg)\<close> is a call into docutils; the
  state keeps the messages passed to it, in order.
\<close>

definition unsupported_msg :: "string \<Rightarrow> str" where
  "unsupported_msg node_type = ustr ''The '' @ ustr node_type @ ustr '' element is not supported.''"

definition unknown_visit :: "node \<Rightarrow> 'a translator_scheme \<Rightarrow> signal \<times> 'a translator_scheme" where
  "unknown_visit n s =
     (let node_type = kind n;
          s1 = (if node_type \<notin> warned s
                then s\<lparr>reporter_warnings := reporter_warnings s @ [unsupported_msg node_type],
                       warned := insert node_type (warned s)\<rparr>
                else s)
      in (SkipNode, s1))"

section \<open>doctree2md: dispatch and traversal\<close>

text \<open>
  \<^verbatim>\<open>dispatch_visit\<close> looks the method \<^verbatim>\<open>visit_<class name>\<close> up on the translator and
  falls back to \<^verbatim>\<open>unknown_visit\<close>; the tables list the methods the class has after its two
  decorators ran.  \<^verbatim>\<open>visit_docinfo_item\<close> takes a second argument, so calling it through
  the dispatcher is a TypeError.
\<close>

definition md_visitors :: "(string \<times> 'a translator_scheme visit) list" where
  "md_visitors =
     map (\<lambda>key. (key, \<lambda>parent n s. Inr (Proceed, s))) PASS_THRU_ELEMENTS @
     map (\<lambda>(key, pre, suf). (key, \<lambda>parent n s. Inr (Proceed, add pre Body s))) PREF_SUFF_ELEMENTS @
     [(''Text'', \<lambda>parent n s. Inr (Proceed, visit_Text n s)),
      (''comment'', \<lambda>parent n s. Inr (visit_comment n s)),
      (''docinfo_item'', \<lambda>parent n s. Inl TypeError),
      (''paragraph'', \<lambda>parent n s. Inr (Proceed, s)),
      (''math_block'', \<lambda>parent n s. Inr (Proceed, visit_math_block s)),
      (''literal_block'', \<lambda>parent n s. map_sum id (Pair Proceed) (visit_literal_block n s)),
      (''block_quote'', \<lambda>parent n s. Inr (Proceed, visit_block_quote s)),
      (''section'', \<lambda>parent n s. Inr (Proceed, visit_section s)),
      (''enumerated_list'', \<lambda>parent n s. Inr (Proceed, visit_enumerated_list s)),
      (''bullet_list'', \<lambda>parent n s. Inr (Proceed, visit_bullet_list s)),
      (''list_item'', \<lambda>parent n s. map_sum id (Pair Proceed) (visit_list_item s)),
      (''subtitle'', visit_subtitle),
      (''system_message'', \<lambda>parent n s. map_sum id (Pair Proceed) (visit_system_message n s)),
      (''title'', \<lambda>parent n s. Inr (Proceed, visit_title n s)),
      (''transition'', \<lambda>parent n s. Inr (visit_transition s)),
      (''reference'', \<lambda>parent n s. visit_reference n s)]"

text \<open>
  \<^verbatim>\<open>dispatch_departure\<close> falls back to docutils' \<^verbatim>\<open>unknown_departure\<close>, which raises
  NotImplementedError.
\<close>

definition md_departures :: "(string \<times> 'a translator_scheme depart) list" where
  "md_departures =
     map (\<lambda>key. (key, \<lambda>n s. Inr s)) PASS_THRU_ELEMENTS @
     map (\<lambda>(key, pre, suf). (key, \<lambda>n s. Inr (add suf Body s))) PREF_SUFF_ELEMENTS @
     [(''Text'', \<lambda>n s. Inr s),
      (''paragraph'', \<lambda>n s. Inr (depart_paragraph s)),
      (''math_block'', \<lambda>n s. Inr (depart_math_block s)),
      (''literal_block'', \<lambda>n s. Inr (depart_literal_block s)),
      (''block_quote'', \<lambda>n s. depart_block_quote s),
      (''section'', \<lambda>n s. Inr (depart_section s)),
      (''enumerated_list'', \<lambda>n s. depart_enumerated_list s),
      (''bullet_list'', \<lambda>n s. depart_bullet_list s),
      (''list_item'', \<lambda>n s. depart_list_item s),
      (''system_message'', \<lambda>n s. Inr s),
      (''title'', \<lambda>n s. Inr (depart_title s)),
      (''reference'', \<lambda>n s. Inr s)]"

definition dispatch_visit ::
  "(string \<times> 'a translator_scheme visit) list \<Rightarrow> 'a translator_scheme visit" where
  "dispatch_visit methods parent n s =
     (case map_of methods (kind n) of
        Some method \<Rightarrow> method parent n s
      | None \<Rightarrow> Inr (unknown_visit n s))"

definition dispatch_departure ::
  "(string \<times> 'a translator_scheme depart) list \<Rightarrow> 'a translator_scheme depart" where
  "dispatch_departure methods n s =
     (case map_of methods (kind n) of
        Some method \<Rightarrow> method n s
      | None \<Rightarrow> Inl NotImplementedError)"

text \<open>
  The traversal driver is docutils' \<^verbatim>\<open>Node.walkabout\<close>: the visit method of a node, then
  (unless it raised SkipNode) the children in document order and the departure method.
  An exception other than SkipNode ends the traversal.
\<close>

fun walkabout :: "'a visit \<Rightarrow> 'a depart \<Rightarrow> string option \<Rightarrow> node \<Rightarrow> 'a \<Rightarrow> error + 'a"
  and walk_children :: "'a visit \<Rightarrow> 'a depart \<Rightarrow> string option \<Rightarrow> node list \<Rightarrow> 'a \<Rightarrow> error + 'a" where
  "walkabout V D parent (Text t) s =
     (case V parent (Text t) s of
        Inl e \<Rightarrow> Inl e
      | Inr (SkipNode, s1) \<Rightarrow> Inr s1
      | Inr (Proceed, s1) \<Rightarrow> D (Text t) s1)"
| "walkabout V D parent (Element k cls attrs sep cs) s =
     (case V parent (Element k cls attrs sep cs) s of
        Inl e \<Rightarrow> Inl e
      | Inr (SkipNode, s1) \<Rightarrow> Inr s1
      | Inr (Proceed, s1) \<Rightarrow>
          (case walk_children V D (Some k) cs s1 of
             Inl e \<Rightarrow> Inl e
           | Inr s2 \<Rightarrow> D (Element k cls attrs sep cs) s2))"
| "walk_children V D parent [] s = Inr s"
| "walk_children V D parent (c # cs) s =
     (case walkabout V D parent c s of
        Inl e \<Rightarrow> Inl e
      | Inr s1 \<Rightarrow> walk_children V D parent cs s1)"

text \<open>\<^verbatim>\<open>Translator.__init__\<close> and \<^verbatim>\<open>Writer.translate\<close> of doctree2md.\<close>

definition init_translator :: translator where
  "init_translator =
     \<lparr>heap = (\<lambda>a. []), next_addr = 3, section_level = 0, list_prefixes = [],
      indent_levels = [], docinfo = init_docinfo, warned = {}, reporter_warnings = []\<rparr>"

definition translate :: "node \<Rightarrow> error + str" where
  "translate document =
     (case walkabout (dispatch_visit md_visitors) (dispatch_departure md_departures) None document
             init_translator of
        Inl e \<Rightarrow> Inl e
      | Inr visitor \<Rightarrow> Inr (fst (astext visitor)))"

section \<open>doctree2nb: the transcript parser\<close>

text \<open>\<^verbatim>\<open>str.expandtabs()\<close> with the default tab size 8; \<open>col\<close> is the column reached.\<close>

fun expandtabs_from :: "nat \<Rightarrow> str \<Rightarrow> str" where
  "expandtabs_from col [] = []"
| "expandtabs_from col (c # cs) =
     (if c = TAB
      then replicate (8 - col mod 8) SP @ expandtabs_from (col + (8 - col mod 8)) cs
      else c # expandtabs_from (if c = LF \<or> c = CR then 0 else col + 1) cs)"

definition expandtabs :: "str \<Rightarrow> str" where
  "expandtabs s = expandtabs_from 0 s"

text \<open>\<^verbatim>\<open>text.split('\n')\<close>: the lines as the \<^verbatim>\<open>re\<close> module sees them (\<open>^\<close>, \<open>$\<close> and \<open>.\<close>).\<close>

fun split_lf_from :: "str \<Rightarrow> str \<Rightarrow> str list" where
  "split_lf_from cur [] = [cur]"
| "split_lf_from cur (c # cs) =
     (if c = LF then cur # split_lf_from [] cs else split_lf_from (cur @ [c]) cs)"

definition split_lf :: "str \<Rightarrow> str list" where
  "split_lf s = split_lf_from [] s"

text \<open>
  \<^verbatim>\<open>textwrap.dedent\<close>, line by line as its three regular expressions work:
  lines of spaces and tabs only are emptied (\<^verbatim>\<open>^[ \t]+$\<close>); the indent of every line that
  has another character is collected (\<^verbatim>\<open>(^[ \t]*)(?:[^ \t\n])\<close>); the margin is narrowed
  by the loop over the indents; a non-empty margin is removed from the start of every line
  that has it (\<^verbatim>\<open>(?m)^margin\<close>).
\<close>

definition is_blank :: "codepoint \<Rightarrow> bool" where
  "is_blank c = (c = SP \<or> c = TAB)"

fun common_prefix :: "str \<Rightarrow> str \<Rightarrow> str" where
  "common_prefix (x # xs) (y # ys) = (if x = y then x # common_prefix xs ys else [])"
| "common_prefix xs ys = []"

definition startswith :: "str \<Rightarrow> str \<Rightarrow> bool" where
  "startswith s p = (take (length p) s = p)"

fun narrow_margin :: "str option \<Rightarrow> str \<Rightarrow> str option" where
  "narrow_margin None indent = Some indent"
| "narrow_margin (Some margin) indent =
     (if startswith indent margin then Some margin
      else if startswith margin indent then Some indent
      else Some (common_prefix margin indent))"

definition dedent :: "str \<Rightarrow> str" where
  "dedent text =
     (let lines = map (\<lambda>l. if l \<noteq> [] \<and> list_all is_blank l then [] else l) (split_lf text);
          indents = map (takeWhile is_blank) (filter (\<lambda>l. l \<noteq> []) lines);
          margin = foldl narrow_margin None indents
      in case margin of
           None \<Rightarrow> join [LF] lines
         | Some m \<Rightarrow>
             if m = [] then join [LF] lines
             else join [LF] (map (\<lambda>l. if startswith l m then drop (length m) l else l) lines))"

text \<open>
  \<^verbatim>\<open>_EXAMPLE_RE.finditer\<close>.  The expression is anchored at a line start (\<^verbatim>\<open>^\<close>, MULTILINE)
  and every piece of it ends at a line end, so a match is a run of whole lines of
  \<^verbatim>\<open>txt.split('\n')\<close>:
  \<^item> the PS1 line \<^verbatim>\<open>^(?P<indent> [ ]*) >>> .*\<close>: spaces, then \<^verbatim>\<open>>>>\<close>, then the rest
    of the line (VERBOSE drops the blanks of the pattern; \<open>.\<close> stops at LF only);
  \<^item> the PS2 lines \<^verbatim>\<open>(?:\n [ ]* \.\.\. .*)*\<close>: as many following lines as begin with
    spaces and three dots;
  \<^item> \<^verbatim>\<open>\n?\<close> and the group \<^verbatim>\<open>want\<close>: as many following lines as are not blank
    (\<^verbatim>\<open>(?![ ]*$)\<close>) and do not begin with spaces and \<^verbatim>\<open>>>>\<close> (\<^verbatim>\<open>(?![ ]*>>>)\<close>), each
    with its line break (\<^verbatim>\<open>.+$\n?\<close>).
  Every piece after the PS1 line may match nothing, so the greedy choices are never undone.
  The search for the next match goes on at the first line after the match.
\<close>

record example_match =
  m_indent :: str
  m_source :: str
  m_want :: str

definition is_ps1 :: "str \<Rightarrow> bool" where
  "is_ps1 l = startswith (dropWhile (\<lambda>c. c = SP) l) (ustr ''>>>'')"

definition is_ps2 :: "str \<Rightarrow> bool" where
  "is_ps2 l = startswith (dropWhile (\<lambda>c. c = SP) l) (ustr ''...'')"

definition is_want :: "str \<Rightarrow> bool" where
  "is_want l = (dropWhile (\<lambda>c. c = SP) l \<noteq> [] \<and> \<not> is_ps1 l)"

function finditer_lines :: "str list \<Rightarrow> example_match list" where
  "finditer_lines [] = []"
| "finditer_lines (l # ls) =
     (if is_ps1 l then
        (let ps2 = takeWhile is_ps2 ls;
             after_source = dropWhile is_ps2 ls;
             wants = takeWhile is_want after_source;
             rest = dropWhile is_want after_source
         in \<lparr>m_indent = takeWhile (\<lambda>c. c = SP) l,
             m_source = join [LF] (l # ps2),
             m_want = (if rest = [] then join [LF] wants else concat (map (\<lambda>w. w @ [LF]) wants))\<rparr>
            # finditer_lines rest)
      else finditer_lines ls)"
  by pat_completeness auto
termination
  by (relation "measure length")
     (auto intro: le_imp_less_Suc order_trans [OF length_dropWhile_le length_dropWhile_le])

definition finditer :: "str \<Rightarrow> example_match list" where
  "finditer txt = finditer_lines (split_lf txt)"

definition parse_doctest :: "str \<Rightarrow> str" where
  "parse_doctest doctest_txt =
     (let txt = dedent (expandtabs doctest_txt);
          parts = map (\<lambda>m.
                    let indent = length (m_indent m);
                        source_lines = splitlines False (m_source m)
                    in join [LF] (map (\<lambda>L. drop (indent + 4) L) source_lines))
                  (finditer txt)
      in join [LF] parts)"

section \<open>doctree2nb: the notebook translator\<close>

text \<open>
  The cells of \<^verbatim>\<open>self._notebook\<close>: \<^verbatim>\<open>nbf.new_markdown_cell(txt)\<close> and
  \<^verbatim>\<open>nbf.new_code_cell(txt)\<close> are the two kinds of cell the translator makes.
\<close>

datatype cell = Markdown str | Code str

record nb_translator = translator +
  in_nbplot :: bool
  cells :: "cell list"

definition nb_reset :: "'a nb_translator_scheme \<Rightarrow> 'a nb_translator_scheme" where
  "nb_reset s = (reset s)\<lparr>in_nbplot := False\<rparr>"

definition add_text_block :: "str \<Rightarrow> 'a nb_translator_scheme \<Rightarrow> 'a nb_translator_scheme" where
  "add_text_block txt s = s\<lparr>cells := cells s @ [Markdown txt]\<rparr>"

definition flush_text :: "'a nb_translator_scheme \<Rightarrow> 'a nb_translator_scheme" where
  "flush_text s =
     (let (text, s1) = astext s;
          txt = strip text;
          s2 = (if txt \<noteq> [] then add_text_block txt s1 else s1)
      in nb_reset s2)"

text \<open>
  \<^verbatim>\<open>Translator.astext\<close> of doctree2nb hands the notebook to the serializer
  \<^verbatim>\<open>nbf.writes\<close>; the model returns the cells it is given.
\<close>

definition nb_astext :: "'a nb_translator_scheme \<Rightarrow> cell list \<times> 'a nb_translator_scheme" where
  "nb_astext s = (let s1 = flush_text s in (cells s1, s1))"

definition add_code_block :: "str \<Rightarrow> 'a nb_translator_scheme \<Rightarrow> 'a nb_translator_scheme" where
  "add_code_block txt s = (let s1 = flush_text s in s1\<lparr>cells := cells s1 @ [Code txt]\<rparr>)"

definition visit_doctest_block ::
  "node \<Rightarrow> 'a nb_translator_scheme \<Rightarrow> signal \<times> 'a nb_translator_scheme" where
  "visit_doctest_block n s =
     (let doctest_txt = strip (node_astext n)
      in (SkipNode, if doctest_txt \<noteq> [] then add_code_block (parse_doctest doctest_txt) s else s))"

definition visit_only ::
  "node \<Rightarrow> 'a nb_translator_scheme \<Rightarrow> error + signal \<times> 'a nb_translator_scheme" where
  "visit_only n s =
     (case getitem n ''expr'' of
        Inl e \<Rightarrow> Inl e
      | Inr expr \<Rightarrow>
          Inr (SkipNode,
               if expr = AStr (ustr ''markdown'') then add (dedent (node_astext n) @ [LF]) Body s
               else s))"

definition visit_nbplot_rendered :: "'a nb_translator_scheme \<Rightarrow> 'a nb_translator_scheme" where
  "visit_nbplot_rendered s = s\<lparr>in_nbplot := True\<rparr>"

definition depart_nbplot_rendered :: "'a nb_translator_scheme \<Rightarrow> 'a nb_translator_scheme" where
  "depart_nbplot_rendered s = s\<lparr>in_nbplot := False\<rparr>"

definition nb_visit_literal_block ::
  "node \<Rightarrow> 'a nb_translator_scheme \<Rightarrow> error + signal \<times> 'a nb_translator_scheme" where
  "nb_visit_literal_block n s =
     (if \<not> in_nbplot s then map_sum id (Pair Proceed) (visit_literal_block n s)
      else Inr (SkipNode, add_code_block (node_astext n) s))"

definition visit_mpl_hint :: "'a nb_translator_scheme \<Rightarrow> signal \<times> 'a nb_translator_scheme" where
  "visit_mpl_hint s = (SkipNode, add_code_block (ustr ''%matplotlib inline'') s)"

text \<open>The methods of the subclass come first: they override those of doctree2md.\<close>

definition nb_visitors :: "(string \<times> 'a nb_translator_scheme visit) list" where
  "nb_visitors =
     [(''doctest_block'', \<lambda>parent n s. Inr (visit_doctest_block n s)),
      (''only'', \<lambda>parent n s. visit_only n s),
      (''nbplot_rendered'', \<lambda>parent n s. Inr (Proceed, visit_nbplot_rendered s)),
      (''nbplot_not_rendered'', \<lambda>parent n s. Inr (SkipNode, s)),
      (''runrole_reference'', \<lambda>parent n s. Inr (SkipNode, s)),
      (''literal_block'', \<lambda>parent n s. nb_visit_literal_block n s),
      (''mpl_hint'', \<lambda>parent n s. Inr (visit_mpl_hint s))] @ md_visitors"

definition nb_departures :: "(string \<times> 'a nb_translator_scheme depart) list" where
  "nb_departures =
     [(''nbplot_rendered'', \<lambda>n s. Inr (depart_nbplot_rendered s))] @ md_departures"

definition init_nb_translator :: nb_translator where
  "init_nb_translator =
     \<lparr>heap = (\<lambda>a. []), next_addr = 3, section_level = 0, list_prefixes = [],
      indent_levels = [], docinfo = init_docinfo, warned = {}, reporter_warnings = [],
      in_nbplot = False, cells = []\<rparr>"

definition nb_translate :: "node \<Rightarrow> error + cell list" where
  "nb_translate document =
     (case walkabout (dispatch_visit nb_visitors) (dispatch_departure nb_departures) None document
             init_nb_translator of
        Inl e \<Rightarrow> Inl e
      | Inr visitor \<Rightarrow> Inr (fst (nb_astext visitor)))"

section \<open>Definitions used to state the properties\<close>

text \<open>
  The specification's wording of the cleanup in \<^verbatim>\<open>finalize()\<close>: a single trailing fragment
  is dropped from a region if it is a bare line break.
\<close>

definition drop_single_eol :: "str list \<Rightarrow> str list" where
  "drop_single_eol L = (if L \<noteq> [] \<and> last L = [LF] then butlast L else L)"

text \<open>
  The specification's heading marker: weight \<open>min (depth + 1) max_heading_weight\<close>, then a
  space.
\<close>

definition heading_marker_spec :: "nat \<Rightarrow> int \<Rightarrow> str" where
  "heading_marker_spec max_heading_weight depth =
     concat (replicate (min (nat (depth + 1)) max_heading_weight) (ustr ''#'')) @ ustr '' ''"

text \<open>The node kinds that have a visit method in doctree2md; every other kind is unknown.\<close>

definition supported_kinds :: "string list" where
  "supported_kinds = map fst (md_visitors :: (string \<times> translator visit) list)"

text \<open>
  The warnings agree with the set \<^verbatim>\<open>_warned\<close>: one message for every kind in the set, and
  no message twice.
\<close>

definition warn_inv :: "'a translator_scheme \<Rightarrow> bool" where
  "warn_inv s =
     (distinct (reporter_warnings s) \<and> set (reporter_warnings s) = unsupported_msg ` warned s)"

definition same_warnings :: "'a translator_scheme \<Rightarrow> 'a translator_scheme \<Rightarrow> bool" where
  "same_warnings s s' = (warned s' = warned s \<and> reporter_warnings s' = reporter_warnings s)"

text \<open>The source lines of a match, each without its first \<open>indent + 4\<close> characters.\<close>

definition stripped_source_lines :: "example_match \<Rightarrow> str list" where
  "stripped_source_lines m =
     map (drop (length (m_indent m) + 4)) (splitlines False (m_source m))"

text \<open>
  A transcript as the specification describes it: examples, each a run of source lines behind
  the prompts (the first behind \<^verbatim>\<open>>>> \<close>, the others behind \<^verbatim>\<open>... \<close>, all after the same
  indentation) followed by the lines of the expected output.  The expected output is made of
  lines that are not blank and do not begin with the primary prompt; its first line must not
  look like a continuation line, or it would be one.
\<close>

record transcript_example =
  ex_indent :: nat
  ex_source :: "str list"
  ex_want :: "str list"

definition prompt_lines :: "nat \<Rightarrow> str list \<Rightarrow> str list" where
  "prompt_lines i src =
     (replicate i SP @ ustr ''>>> '' @ hd src) #
     map (\<lambda>b. replicate i SP @ ustr ''... '' @ b) (tl src)"

definition example_lines :: "transcript_example \<Rightarrow> str list" where
  "example_lines ex = prompt_lines (ex_indent ex) (ex_source ex) @ ex_want ex"

definition well_formed_example :: "transcript_example \<Rightarrow> bool" where
  "well_formed_example ex =
     (ex_source ex \<noteq> [] \<and>
      list_all (\<lambda>b. list_all (\<lambda>c. \<not> is_linebreak c) b) (ex_source ex) \<and>
      list_all (\<lambda>w. is_want w \<and> LF \<notin> set w) (ex_want ex) \<and>
      (ex_want ex = [] \<or> \<not> is_ps2 (hd (ex_want ex))))"

text \<open>The match that \<^verbatim>\<open>finditer\<close> returns for such an example.\<close>

definition match_of :: "transcript_example \<Rightarrow> str \<Rightarrow> example_match" where
  "match_of ex want =
     \<lparr>m_indent = replicate (ex_indent ex) SP,
      m_source = join [LF] (prompt_lines (ex_indent ex) (ex_source ex)),
      m_want = want\<rparr>"

text \<open>Concrete states and trees on which the theorems below are evaluated.\<close>

definition loop_transcript :: str where
  "loop_transcript =
     ustr ''  >>> for i in x:\<newline>  ...     print(i)\<newline>  1\<newline>  2\<newline>  >>> y = 3''"

definition loop_examples :: "transcript_example list" where
  "loop_examples =
     [\<lparr>ex_indent = 0, ex_source = [ustr ''for i in x:'', ustr ''    print(i)''],
       ex_want = [ustr ''1'', ustr ''2'']\<rparr>,
      \<lparr>ex_indent = 0, ex_source = [ustr ''y = 3''], ex_want = []\<rparr>]"

definition quote_level_state :: translator where
  "quote_level_state =
     add (ustr ''a\<newline> \<newline>b'') Body (start_level (ustr ''> '') None Body init_translator)"

definition three_region_state :: translator where
  "three_region_state =
     add_section [LF] Foot (add_section [LF] Body (add_section [LF] Body
       (add_section (ustr ''x'') Body (add_section (ustr ''# T'') Head init_translator))))"

definition comment_node :: node where
  "comment_node = Element ''comment'' [] [] [] [Text (ustr ''hi'')]"

definition section_node :: "node list \<Rightarrow> node" where
  "section_node cs = Element ''section'' [] [] [LF, LF] cs"

definition deep_heading_doc :: node where
  "deep_heading_doc =
     Element ''document'' [] [] [LF, LF]
       [section_node [section_node [section_node [section_node [section_node [section_node
          [Element ''title'' [] [] [] [Text (ustr ''T'')]]]]]]]]"

definition bullet_list_doc :: node where
  "bullet_list_doc =
     Element ''document'' [] [] [LF, LF]
       [Element ''bullet_list'' [] [] [LF, LF]
          [Element ''list_item'' [] [] [LF, LF] [Element ''paragraph'' [] [] [] [Text (ustr ''a'')]],
           Element ''list_item'' [] [] [LF, LF] [Element ''paragraph'' [] [] [] [Text (ustr ''b'')]],
           Element ''list_item'' [] [] [LF, LF] [Element ''paragraph'' [] [] [] [Text (ustr ''c'')]]]]"

definition bare_bullet_list_doc :: node where
  "bare_bullet_list_doc =
     Element ''document'' [] [] [LF, LF]
       [Element ''bullet_list'' [] [] [LF, LF]
          [Element ''list_item'' [] [] [LF, LF] [Text (ustr ''a'')],
           Element ''list_item'' [] [] [LF, LF] [Text (ustr ''b'')],
           Element ''list_item'' [] [] [LF, LF] [Text (ustr ''c'')]]]"

definition figure_node :: "node list \<Rightarrow> node" where
  "figure_node cs = Element ''figure'' [] [] [LF, LF] cs"

definition two_figures_doc :: node where
  "two_figures_doc =
     Element ''document'' [] [] [LF, LF]
       [figure_node [Element ''paragraph'' [] [] [] [Text (ustr ''hidden'')]],
        Element ''paragraph'' [] [] [] [Text (ustr ''shown'')],
        figure_node []]"

definition literal_block_node :: "string \<Rightarrow> node" where
  "literal_block_node t = Element ''literal_block'' [] [] [] [Text (ustr t)]"

definition two_literal_blocks_doc :: node where
  "two_literal_blocks_doc =
     Element ''document'' [] [] [LF, LF]
       [Element ''nbplot_rendered'' [] [] [LF, LF]
          [literal_block_node ''a = 1'', literal_block_node ''b = 2'']]"

definition bare_prompt_doc :: node where
  "bare_prompt_doc =
     Element ''document'' [] [] [LF, LF]
       [Element ''doctest_block'' [] [] [] [Text (ustr ''>>>'')]]"

definition blank_list_item_state :: nb_translator where
  "blank_list_item_state =
     add (ustr ''lost'') Body (start_level (ustr ''  '') (Some (ustr ''* '')) Body
       (add (ustr ''  \<newline>'') Body
          (init_nb_translator\<lparr>section_level := 2, list_prefixes := [ustr ''* ''], in_nbplot := True,
             cells := [Code (ustr ''x'')]\<rparr>)))"

section \<open>Lines and whitespace\<close>

lemma concat_splitlines_from: "concat (splitlines_from True cur s) = cur @ s"
  by (induction True cur s rule: splitlines_from.induct) auto

lemma concat_splitlines: "concat (splitlines True s) = s"
  by (simp add: splitlines_def concat_splitlines_from)

lemma splitlines_from_nonempty: "[] \<notin> set (splitlines_from True cur s)"
  by (induction True cur s rule: splitlines_from.induct) auto

lemma splitlines_nonempty: "[] \<notin> set (splitlines True s)"
  by (simp add: splitlines_def splitlines_from_nonempty)

lemma splitlines_from_Nil_iff: "splitlines_from keepends cur s = [] \<longleftrightarrow> cur = [] \<and> s = []"
  by (induction keepends cur s rule: splitlines_from.induct) auto

lemma splitlines_Nil_iff: "splitlines keepends s = [] \<longleftrightarrow> s = []"
  by (simp add: splitlines_def splitlines_from_Nil_iff)

lemma dropWhile_rev_nonempty:
  assumes "ys \<noteq> []" and "\<not> P (hd ys)"
  shows "dropWhile P (rev ys) \<noteq> []"
proof -
  have "hd ys \<in> set (rev ys)" using assms(1) by simp
  then show ?thesis using assms(2) by auto
qed

lemma strip_Nil_iff: "strip l = [] \<longleftrightarrow> list_all is_space l"
proof (cases "dropWhile is_space l = []")
  case True
  then have "list_all is_space l" by (simp add: list_all_iff)
  moreover have "strip l = []" unfolding strip_def True by simp
  ultimately show ?thesis by simp
next
  case False
  then have "\<not> is_space (hd (dropWhile is_space l))" by (simp add: hd_dropWhile)
  with False have "dropWhile is_space (rev (dropWhile is_space l)) \<noteq> []"
    by (rule dropWhile_rev_nonempty)
  moreover from False have "\<not> list_all is_space l" by (simp add: list_all_iff)
  ultimately show ?thesis by (simp add: strip_def)
qed

lemma join_append:
  "xs \<noteq> [] \<Longrightarrow> ys \<noteq> [] \<Longrightarrow> join sep (xs @ ys) = join sep xs @ sep @ join sep ys"
proof (induction sep xs rule: join.induct)
  case (2 sep x)
  then show ?case by (cases ys) simp_all
qed simp_all

lemma join_join:
  "[] \<notin> set xss \<Longrightarrow> join sep (map (join sep) xss) = join sep (concat xss)"
proof (induction xss rule: induct_list012)
  case (3 xs ys yss)
  then have "xs \<noteq> []" and "concat (ys # yss) \<noteq> []" by auto
  then have "join sep (xs @ concat (ys # yss)) = join sep xs @ sep @ join sep (concat (ys # yss))"
    by (rule join_append)
  with 3 show ?case by simp
qed simp_all

lemma ustr_inj: "ustr a = ustr b \<Longrightarrow> a = b"
  unfolding ustr_def by (induction a arbitrary: b) auto

lemma fun_upd_const: "(\<lambda>a. c)(x := c) = (\<lambda>a. c)"
  by (rule ext) simp

lemmas text_eval = splitlines_def strip_def is_space_def is_linebreak_def
  LF_def CR_def SP_def TAB_def ustr_def Let_def

section \<open>The method tables, entry by entry\<close>

lemma md_visitors_alt:
  "(md_visitors :: (string \<times> 'a translator_scheme visit) list) =
     [(''document'', \<lambda>parent n s. Inr (Proceed, s)),
      (''container'', \<lambda>parent n s. Inr (Proceed, s)),
      (''target'', \<lambda>parent n s. Inr (Proceed, s)),
      (''inline'', \<lambda>parent n s. Inr (Proceed, s)),
      (''emphasis'', \<lambda>parent n s. Inr (Proceed, add (ustr ''*'') Body s)),
      (''problematic'', \<lambda>parent n s. Inr (Proceed, add [LF, LF] Body s)),
      (''strong'', \<lambda>parent n s. Inr (Proceed, add (ustr ''**'') Body s)),
      (''literal'', \<lambda>parent n s. Inr (Proceed, add [96] Body s)),
      (''math'', \<lambda>parent n s. Inr (Proceed, add (ustr ''$'') Body s)),
      (''subscript'', \<lambda>parent n s. Inr (Proceed, add (ustr ''<sub>'') Body s)),
      (''superscript'', \<lambda>parent n s. Inr (Proceed, add (ustr ''<sup>'') Body s)),
      (''Text'', \<lambda>parent n s. Inr (Proceed, visit_Text n s)),
      (''comment'', \<lambda>parent n s. Inr (visit_comment n s)),
      (''docinfo_item'', \<lambda>parent n s. Inl TypeError),
      (''paragraph'', \<lambda>parent n s. Inr (Proceed, s)),
      (''math_block'', \<lambda>parent n s. Inr (Proceed, visit_math_block s)),
      (''literal_block'', \<lambda>parent n s. map_sum id (Pair Proceed) (visit_literal_block n s)),
      (''block_quote'', \<lambda>parent n s. Inr (Proceed, visit_block_quote s)),
      (''section'', \<lambda>parent n s. Inr (Proceed, visit_section s)),
      (''enumerated_list'', \<lambda>parent n s. Inr (Proceed, visit_enumerated_list s)),
      (''bullet_list'', \<lambda>parent n s. Inr (Proceed, visit_bullet_list s)),
      (''list_item'', \<lambda>parent n s. map_sum id (Pair Proceed) (visit_list_item s)),
      (''subtitle'', visit_subtitle),
      (''system_message'', \<lambda>parent n s. map_sum id (Pair Proceed) (visit_system_message n s)),
      (''title'', \<lambda>parent n s. Inr (Proceed, visit_title n s)),
      (''transition'', \<lambda>parent n s. Inr (visit_transition s)),
      (''reference'', \<lambda>parent n s. visit_reference n s)]"
  by (simp add: md_visitors_def PASS_THRU_ELEMENTS_def PREF_SUFF_ELEMENTS_def)

lemma md_departures_alt:
  "(md_departures :: (string \<times> 'a translator_scheme depart) list) =
     [(''document'', \<lambda>n s. Inr s),
      (''container'', \<lambda>n s. Inr s),
      (''target'', \<lambda>n s. Inr s),
      (''inline'', \<lambda>n s. Inr s),
      (''emphasis'', \<lambda>n s. Inr (add (ustr ''*'') Body s)),
      (''problematic'', \<lambda>n s. Inr (add [LF, LF] Body s)),
      (''strong'', \<lambda>n s. Inr (add (ustr ''**'') Body s)),
      (''literal'', \<lambda>n s. Inr (add [96] Body s)),
      (''math'', \<lambda>n s. Inr (add (ustr ''$'') Body s)),
      (''subscript'', \<lambda>n s. Inr (add (ustr ''</sub>'') Body s)),
      (''superscript'', \<lambda>n s. Inr (add (ustr ''</sup>'') Body s)),
      (''Text'', \<lambda>n s. Inr s),
      (''paragraph'', \<lambda>n s. Inr (depart_paragraph s)),
      (''math_block'', \<lambda>n s. Inr (depart_math_block s)),
      (''literal_block'', \<lambda>n s. Inr (depart_literal_block s)),
      (''block_quote'', \<lambda>n s. depart_block_quote s),
      (''section'', \<lambda>n s. Inr (depart_section s)),
      (''enumerated_list'', \<lambda>n s. depart_enumerated_list s),
      (''bullet_list'', \<lambda>n s. depart_bullet_list s),
      (''list_item'', \<lambda>n s. depart_list_item s),
      (''system_message'', \<lambda>n s. Inr s),
      (''title'', \<lambda>n s. Inr (depart_title s)),
      (''reference'', \<lambda>n s. Inr s)]"
  by (simp add: md_departures_def PASS_THRU_ELEMENTS_def PREF_SUFF_ELEMENTS_def)

lemma md_visit_simps:
  "dispatch_visit md_visitors p (Element ''document'' cls attrs sep cs) s = Inr (Proceed, s)"
  "dispatch_visit md_visitors p (Element ''section'' cls attrs sep cs) s = Inr (Proceed, visit_section s)"
  "dispatch_visit md_visitors p (Element ''title'' cls attrs sep cs) s =
     Inr (Proceed, visit_title (Element ''title'' cls attrs sep cs) s)"
  "dispatch_visit md_visitors p (Element ''paragraph'' cls attrs sep cs) s = Inr (Proceed, s)"
  "dispatch_visit md_visitors p (Element ''bullet_list'' cls attrs sep cs) s =
     Inr (Proceed, visit_bullet_list s)"
  "dispatch_visit md_visitors p (Element ''list_item'' cls attrs sep cs) s =
     map_sum id (Pair Proceed) (visit_list_item s)"
  "dispatch_visit md_visitors p (Element ''comment'' cls attrs sep cs) s =
     Inr (visit_comment (Element ''comment'' cls attrs sep cs) s)"
  "dispatch_visit md_visitors p (Element ''figure'' cls attrs sep cs) s =
     Inr (unknown_visit (Element ''figure'' cls attrs sep cs) s)"
  "dispatch_visit md_visitors p (Text t) s = Inr (Proceed, visit_Text (Text t) s)"
  by (simp_all add: dispatch_visit_def md_visitors_alt)

lemma md_depart_simps:
  "dispatch_departure md_departures (Element ''document'' cls attrs sep cs) s = Inr s"
  "dispatch_departure md_departures (Element ''section'' cls attrs sep cs) s = Inr (depart_section s)"
  "dispatch_departure md_departures (Element ''title'' cls attrs sep cs) s = Inr (depart_title s)"
  "dispatch_departure md_departures (Element ''paragraph'' cls attrs sep cs) s =
     Inr (depart_paragraph s)"
  "dispatch_departure md_departures (Element ''bullet_list'' cls attrs sep cs) s =
     depart_bullet_list s"
  "dispatch_departure md_departures (Element ''list_item'' cls attrs sep cs) s = depart_list_item s"
  "dispatch_departure md_departures (Text t) s = Inr s"
  by (simp_all add: dispatch_departure_def md_departures_alt)

lemma nb_visit_simps:
  "dispatch_visit nb_visitors p (Element ''document'' cls attrs sep cs) s = Inr (Proceed, s)"
  "dispatch_visit nb_visitors p (Element ''paragraph'' cls attrs sep cs) s = Inr (Proceed, s)"
  "dispatch_visit nb_visitors p (Element ''doctest_block'' cls attrs sep cs) s =
     Inr (visit_doctest_block (Element ''doctest_block'' cls attrs sep cs) s)"
  "dispatch_visit nb_visitors p (Element ''nbplot_rendered'' cls attrs sep cs) s =
     Inr (Proceed, visit_nbplot_rendered s)"
  "dispatch_visit nb_visitors p (Element ''literal_block'' cls attrs sep cs) s =
     nb_visit_literal_block (Element ''literal_block'' cls attrs sep cs) s"
  "dispatch_visit nb_visitors p (Text t) s = Inr (Proceed, visit_Text (Text t) s)"
  by (simp_all add: dispatch_visit_def nb_visitors_def md_visitors_alt)

lemma nb_depart_simps:
  "dispatch_departure nb_departures (Element ''document'' cls attrs sep cs) s = Inr s"
  "dispatch_departure nb_departures (Element ''paragraph'' cls attrs sep cs) s = Inr (depart_paragraph s)"
  "dispatch_departure nb_departures (Element ''nbplot_rendered'' cls attrs sep cs) s =
     Inr (depart_nbplot_rendered s)"
  "dispatch_departure nb_departures (Element ''literal_block'' cls attrs sep cs) s =
     Inr (depart_literal_block s)"
  "dispatch_departure nb_departures (Text t) s = Inr s"
  by (simp_all add: dispatch_departure_def nb_departures_def md_departures_alt)

text \<open>The traversal equations with the signal tested by \<open>if\<close>, as the simplifier evaluates them.\<close>

lemma walkabout_Element_if:
  "walkabout V D parent (Element k cls attrs sep cs) s =
     (case V parent (Element k cls attrs sep cs) s of
        Inl e \<Rightarrow> Inl e
      | Inr r \<Rightarrow>
          if fst r = SkipNode then Inr (snd r)
          else (case walk_children V D (Some k) cs (snd r) of
                  Inl e \<Rightarrow> Inl e
                | Inr s2 \<Rightarrow> D (Element k cls attrs sep cs) s2))"
  by (auto split: sum.splits signal.splits)

lemma walkabout_Text_if:
  "walkabout V D parent (Text t) s =
     (case V parent (Text t) s of
        Inl e \<Rightarrow> Inl e
      | Inr r \<Rightarrow> if fst r = SkipNode then Inr (snd r) else D (Text t) (snd r))"
  by (auto split: sum.splits signal.splits)

lemmas walk_eval = walkabout_Element_if walkabout_Text_if

lemmas engine_eval = astext_def drop_trailing_eols_def drop_eol_def
  start_level_def finish_level_def IndentLevel_write_def list_append_def add_def add_section_def
  get_current_output_def ensure_eol_def reset_def head_addr_def body_addr_def foot_addr_def

lemmas md_eval = translate_def init_translator_def visit_section_def depart_section_def
  visit_title_def depart_title_def visit_bullet_list_def depart_bullet_list_def
  depart_enumerated_list_def visit_list_item_def depart_list_item_def depart_paragraph_def
  visit_Text_def

lemmas nb_eval = nb_translate_def init_nb_translator_def nb_astext_def flush_text_def nb_reset_def
  add_text_block_def add_code_block_def visit_doctest_block_def visit_nbplot_rendered_def
  depart_nbplot_rendered_def nb_visit_literal_block_def visit_literal_block_def depart_literal_block_def
  depart_paragraph_def visit_Text_def

lemmas doctest_eval = parse_doctest_def finditer_def split_lf_def dedent_def expandtabs_def
  is_ps1_def is_ps2_def is_want_def startswith_def is_blank_def

section \<open>Materializing an indentation context\<close>

text \<open>
  C1.  Popping an indentation context (\<^verbatim>\<open>finish_level\<close>, which runs
  \<^verbatim>\<open>IndentLevel.write\<close> on the level it pops) joins the level's content fragments into one
  string and splits it into lines that keep their terminators, so the lines joined give the
  string back and no line is empty.  With no lines nothing is appended to the level's base.
  Otherwise one fragment is appended to the base: \<open>first_prefix\<close> and the first line, then
  for every further line a bare line break if the line holds only whitespace, and \<open>prefix\<close>
  and the line if not.
\<close>

theorem finish_level_materializes:
  assumes "indent_levels s \<noteq> []"
  shows "let lvl = last (indent_levels s);
             string = concat (heap s (content lvl));
             lines = splitlines True string;
             text = first_prefix lvl @ hd lines @
                    concat (map (\<lambda>line. if list_all is_space line then [LF] else prefix lvl @ line)
                              (tl lines))
         in concat lines = string \<and> [] \<notin> set lines \<and>
            finish_level s =
              Inr (if lines = [] then s\<lparr>indent_levels := butlast (indent_levels s)\<rparr>
                   else s\<lparr>indent_levels := butlast (indent_levels s),
                          heap := (heap s)(base lvl := heap s (base lvl) @ [text])\<rparr>)"
  using assms
  by (simp add: Let_def finish_level_def IndentLevel_write_def list_append_def concat_splitlines
      strip_Nil_iff splitlines_nonempty)

theorem finish_level_materializes_witness:
  "indent_levels quote_level_state \<noteq> [] \<and>
   (case finish_level quote_level_state of
      Inr s' \<Rightarrow> heap s' body_addr = [ustr ''> a\<newline>\<newline>> b''] \<and> indent_levels s' = []
    | Inl e \<Rightarrow> False)"
  using finish_level_materializes [of quote_level_state]
  by (simp add: quote_level_state_def add_def start_level_def init_translator_def list_append_def
      get_current_output_def splitlines_def is_linebreak_def is_space_def ustr_def LF_def CR_def
      body_addr_def Let_def)

section \<open>Heading markers\<close>

lemma translate_deep_heading_doc:
  "translate deep_heading_doc = Inr (ustr ''####### T\<newline>'')"
  by (simp add: deep_heading_doc_def section_node_def md_eval engine_eval text_eval
      md_visit_simps md_depart_simps walk_eval eval_nat_numeral del: walkabout.simps)

text \<open>
  C2, as the specification states it, fails: the translator has no maximum heading weight.
  A title six sections deep is rendered with seven \<^verbatim>\<open>#\<close>, where a marker capped at the six
  levels of Markdown would have six.
\<close>

theorem heading_weight_counterexample:
  "translate deep_heading_doc = Inr (ustr ''####### T\<newline>'') \<and>
   translate deep_heading_doc \<noteq> Inr (heading_marker_spec 6 6 @ ustr ''T\<newline>'')"
  by (simp add: translate_deep_heading_doc)
     (simp add: heading_marker_spec_def ustr_def eval_nat_numeral)

lemma map_of_md_visitors_title:
  "map_of (md_visitors :: (string \<times> 'a translator_scheme visit) list) ''title'' =
     Some (\<lambda>parent n s. Inr (Proceed, visit_title n s))"
  by (simp add: md_visitors_alt)

lemma map_of_md_departures_title:
  "map_of (md_departures :: (string \<times> 'a translator_scheme depart) list) ''title'' =
     Some (\<lambda>n s. Inr (depart_title s))"
  by (simp add: md_departures_alt)

text \<open>
  C2, amended.  For every title visited at section depth \<open>d \<ge> 1\<close> the translator appends to
  the current output one fragment of \<open>d + 1\<close> characters \<^verbatim>\<open>#\<close> and a space, whatever the
  depth; the traversal then visits the title's children (its inline content) and runs
  \<^verbatim>\<open>depart_title\<close>.
\<close>

theorem visit_title_marker:
  assumes "1 \<le> section_level s"
  shows "length (concat (replicate (nat (section_level s + 1)) (ustr ''#''))) =
           nat (section_level s + 1) \<and>
         dispatch_visit md_visitors parent (Element ''title'' cls attrs sep cs) s =
           Inr (Proceed,
                s\<lparr>heap := (heap s)(get_current_output Body s :=
                    heap s (get_current_output Body s) @
                      [concat (replicate (nat (section_level s + 1)) (ustr ''#'')) @ ustr '' ''])\<rparr>) \<and>
         walkabout (dispatch_visit md_visitors) (dispatch_departure md_departures) parent
             (Element ''title'' cls attrs sep cs) s =
           (case walk_children (dispatch_visit md_visitors) (dispatch_departure md_departures)
                   (Some ''title'') cs
                   (s\<lparr>heap := (heap s)(get_current_output Body s :=
                       heap s (get_current_output Body s) @
                         [concat (replicate (nat (section_level s + 1)) (ustr ''#'')) @ ustr '' ''])\<rparr>) of
              Inl e \<Rightarrow> Inl e
            | Inr s2 \<Rightarrow> Inr (depart_title s2))"
  using assms
  by (simp add: dispatch_visit_def dispatch_departure_def map_of_md_visitors_title
      map_of_md_departures_title visit_title_def add_def list_append_def ustr_def
      length_concat sum_list_replicate comp_def split: sum.splits)

theorem visit_title_marker_witness:
  "1 \<le> section_level (init_translator\<lparr>section_level := 6\<rparr>) \<and>
   dispatch_visit md_visitors None (Element ''title'' [] [] [] [Text (ustr ''T'')])
       (init_translator\<lparr>section_level := 6\<rparr>) =
     Inr (Proceed,
          init_translator\<lparr>section_level := 6, heap := (\<lambda>a. [])(body_addr := [ustr ''####### ''])\<rparr>)"
  using visit_title_marker [of "init_translator\<lparr>section_level := 6\<rparr>" None "[]" "[]" "[]"
      "[Text (ustr ''T'')]"]
  by (simp add: init_translator_def get_current_output_def ustr_def eval_nat_numeral)

section \<open>Transcript blocks in the notebook\<close>

text \<open>
  C3, as the specification states it, fails: \<^verbatim>\<open>visit_doctest_block\<close> tests the block's own
  text, not the extracted source.  A block holding only the prompt \<^verbatim>\<open>>>>\<close> has the empty
  extracted source, and the notebook gets a code cell with that empty source.
\<close>

theorem doctest_block_counterexample:
  "parse_doctest (strip (node_astext (Element ''doctest_block'' [] [] [] [Text (ustr ''>>>'')]))) = [] \<and>
   nb_translate bare_prompt_doc = Inr [Code []]"
  by (simp add: bare_prompt_doc_def nb_eval engine_eval text_eval doctest_eval
      nb_visit_simps nb_depart_simps walk_eval fun_upd_const del: walkabout.simps)

text \<open>
  C3, amended.  For every transcript block the notebook translator strips the block's text
  and, if and only if that text is not empty (the block's text is not all whitespace),
  flushes the pending Markdown text and appends a code cell holding the source extracted
  from the stripped text, which may be empty.  In both cases the subtree is skipped.
\<close>

theorem visit_doctest_block_cell:
  "walkabout (dispatch_visit nb_visitors) (dispatch_departure nb_departures) parent
     (Element ''doctest_block'' cls attrs sep cs) s =
   Inr (if list_all is_space (join sep (map node_astext cs)) then s
        else (flush_text s)\<lparr>cells := cells (flush_text s) @
               [Code (parse_doctest (strip (join sep (map node_astext cs))))]\<rparr>)"
  by (simp add: nb_visit_simps visit_doctest_block_def add_code_block_def Let_def strip_Nil_iff)

theorem visit_doctest_block_cell_witness:
  "walkabout (dispatch_visit nb_visitors) (dispatch_departure nb_departures) None
     (Element ''doctest_block'' [] [] [] [Text (ustr ''>>> x = 1\<newline>>>> x\<newline>1'')])
     init_nb_translator =
   Inr (init_nb_translator\<lparr>cells := [Code (ustr ''x = 1\<newline>x'')]\<rparr>)"
  using visit_doctest_block_cell [of None "[]" "[]" "[]"
      "[Text (ustr ''>>> x = 1\<newline>>>> x\<newline>1'')]" init_nb_translator]
  by (simp add: nb_eval engine_eval text_eval doctest_eval fun_upd_const)

section \<open>A bullet list\<close>

lemma translate_bullet_list_doc:
  "translate bullet_list_doc =
     Inr (ustr ''* a\<newline>\<newline>* b\<newline>\<newline>* c\<newline>\<newline>'')"
  by (simp add: bullet_list_doc_def md_eval engine_eval text_eval md_visit_simps md_depart_simps
      walk_eval del: walkabout.simps)

lemma translate_bare_bullet_list_doc:
  "translate bare_bullet_list_doc = Inr (ustr ''* a* b* c'')"
  by (simp add: bare_bullet_list_doc_def md_eval engine_eval text_eval md_visit_simps
      md_depart_simps walk_eval del: walkabout.simps)

text \<open>
  C4, as the specification states it, fails.  The lines of the rendered list are not the
  three lines \<^verbatim>\<open>* a\<close>, \<^verbatim>\<open>* b\<close>, \<^verbatim>\<open>* c\<close>: neither when every item holds a paragraph (as the
  items of a parsed list do), nor when every item holds its text directly.
\<close>

theorem bullet_list_counterexample:
  "map_sum id (splitlines False) (translate bullet_list_doc) \<noteq>
     Inr [ustr ''* a'', ustr ''* b'', ustr ''* c''] \<and>
   map_sum id (splitlines False) (translate bare_bullet_list_doc) \<noteq>
     Inr [ustr ''* a'', ustr ''* b'', ustr ''* c'']"
  by (simp add: translate_bullet_list_doc translate_bare_bullet_list_doc text_eval)

text \<open>
  C4, amended.  A bullet list of three items, each holding the one paragraph \<^verbatim>\<open>a\<close>,
  \<^verbatim>\<open>b\<close>, \<^verbatim>\<open>c\<close>, is rendered as the lines \<^verbatim>\<open>* a\<close>, \<^verbatim>\<open>* b\<close>, \<^verbatim>\<open>* c\<close>, each followed by
  one empty line.
\<close>

theorem bullet_list_rendering:
  "translate bullet_list_doc =
     Inr (ustr ''* a\<newline>\<newline>* b\<newline>\<newline>* c\<newline>\<newline>'') \<and>
   map_sum id (splitlines False) (translate bullet_list_doc) =
     Inr [ustr ''* a'', [], ustr ''* b'', [], ustr ''* c'', []]"
  by (simp add: translate_bullet_list_doc) (simp add: text_eval)

section \<open>The transcript parser\<close>

lemma startswith_append: "startswith (p @ r) p"
  by (simp add: startswith_def)

lemma startswithD: "startswith s p \<Longrightarrow> \<exists>r. s = p @ r"
  unfolding startswith_def by (metis append_take_drop_id)

lemma join_Cons_startswith: "startswith (join sep (l # ls)) l"
  by (cases ls) (simp_all add: startswith_def)

lemma is_ps1_shape:
  assumes "is_ps1 l"
  shows "startswith l (takeWhile (\<lambda>c. c = SP) l @ ustr ''>>>'')"
proof -
  from assms obtain r where "dropWhile (\<lambda>c. c = SP) l = ustr ''>>>'' @ r"
    unfolding is_ps1_def by (blast dest: startswithD)
  then have "l = (takeWhile (\<lambda>c. c = SP) l @ ustr ''>>>'') @ r"
    by (metis append.assoc takeWhile_dropWhile_id)
  then show ?thesis by (metis startswith_append)
qed

lemma startswith_trans:
  assumes "startswith s l" and "startswith l p"
  shows "startswith s p"
proof -
  from assms obtain r r' where "s = l @ r" and "l = p @ r'" by (blast dest: startswithD)
  then have "s = p @ (r' @ r)" by simp
  then show ?thesis by (simp add: startswith_def)
qed

lemma finditer_lines_shape:
  "m \<in> set (finditer_lines ls) \<Longrightarrow>
     list_all (\<lambda>c. c = SP) (m_indent m) \<and>
     startswith (m_source m) (m_indent m @ ustr ''>>>'')"
proof (induction ls rule: finditer_lines.induct)
  case 1
  then show ?case by simp
next
  case (2 l ls)
  show ?case
  proof (cases "is_ps1 l")
    case True
    have a: "list_all (\<lambda>c. c = SP) (takeWhile (\<lambda>c. c = SP) l)"
      by (simp add: list_all_iff) (meson set_takeWhileD)
    have b: "startswith (join [LF] (l # takeWhile is_ps2 ls)) (takeWhile (\<lambda>c. c = SP) l @ ustr ''>>>'')"
      using join_Cons_startswith is_ps1_shape [OF True] by (rule startswith_trans)
    from "2.prems" True "2.IH"(1) [OF True refl refl refl refl] a b show ?thesis
      by (auto simp: Let_def)
  next
    case False
    with "2.prems" "2.IH"(2) show ?thesis by simp
  qed
qed

lemma finditer_source_nonempty:
  assumes "m \<in> set (finditer txt)"
  shows "stripped_source_lines m \<noteq> []"
proof -
  from assms have "startswith (m_source m) (m_indent m @ ustr ''>>>'')"
    unfolding finditer_def by (blast dest: finditer_lines_shape)
  then have "m_source m \<noteq> []" by (auto dest!: startswithD simp: ustr_def)
  then show ?thesis by (simp add: stripped_source_lines_def splitlines_Nil_iff)
qed

lemma parse_doctest_lines:
  "parse_doctest doctest_txt =
     join [LF] (concat (map stripped_source_lines (finditer (dedent (expandtabs doctest_txt)))))"
proof -
  have "[] \<notin> set (map stripped_source_lines (finditer (dedent (expandtabs doctest_txt))))"
    using finditer_source_nonempty by fastforce
  from join_join [OF this, of "[LF]"] show ?thesis
    by (simp add: parse_doctest_def Let_def stripped_source_lines_def comp_def)
qed

lemma parse_doctest_example:
  "parse_doctest (ustr ''>>> x = 1\<newline>>>> x\<newline>1\<newline>'') = ustr ''x = 1\<newline>x''"
  by (simp add: doctest_eval text_eval)

lemma split_lf_from_line:
  "LF \<notin> set l \<Longrightarrow> split_lf_from cur (l @ rest) = split_lf_from (cur @ l) rest"
  by (induction l arbitrary: cur) auto

lemma split_lf_from_join:
  "ls \<noteq> [] \<Longrightarrow> \<forall>l\<in>set ls. LF \<notin> set l \<Longrightarrow>
     split_lf_from cur (join [LF] ls) = (cur @ hd ls) # tl ls"
proof (induction "[LF]" ls arbitrary: cur rule: join.induct)
  case 1
  then show ?case by simp
next
  case (2 x)
  then show ?case using split_lf_from_line [of x cur "[]"] by simp
next
  case (3 x y ys)
  have "split_lf_from cur (x @ LF # join [LF] (y # ys)) =
          split_lf_from (cur @ x) (LF # join [LF] (y # ys))"
    using 3(3) split_lf_from_line [of x cur] by simp
  also have "\<dots> = (cur @ x) # split_lf_from [] (join [LF] (y # ys))" by simp
  also have "split_lf_from [] (join [LF] (y # ys)) = y # ys"
    using 3(1) [of "[]"] 3(3) by simp
  finally show ?case by simp
qed

lemma split_lf_join:
  "ls \<noteq> [] \<Longrightarrow> \<forall>l\<in>set ls. LF \<notin> set l \<Longrightarrow> split_lf (join [LF] ls) = ls"
  by (simp add: split_lf_def split_lf_from_join)

lemma splitlines_from_char:
  "\<not> is_linebreak c \<Longrightarrow> splitlines_from k cur (c # s) = splitlines_from k (cur @ [c]) s"
  by (cases s) auto

lemma splitlines_from_LF:
  "splitlines_from False cur (LF # s) = cur # splitlines_from False [] s"
  by (cases s) (auto simp: is_linebreak_def LF_def CR_def)

lemma splitlines_from_line:
  "\<forall>c\<in>set l. \<not> is_linebreak c \<Longrightarrow>
     splitlines_from k cur (l @ rest) = splitlines_from k (cur @ l) rest"
  by (induction l arbitrary: cur) (simp_all add: splitlines_from_char)

lemma splitlines_from_join:
  "\<forall>l\<in>set ls. l \<noteq> [] \<and> (\<forall>c\<in>set l. \<not> is_linebreak c) \<Longrightarrow> ls \<noteq> [] \<Longrightarrow>
     splitlines_from False cur (join [LF] ls) = (cur @ hd ls) # tl ls"
proof (induction "[LF]" ls arbitrary: cur rule: join.induct)
  case 1
  then show ?case by simp
next
  case (2 x)
  then show ?case using splitlines_from_line [of x False cur "[]"] by simp
next
  case (3 x y ys)
  have "splitlines_from False cur (x @ LF # join [LF] (y # ys)) =
          splitlines_from False (cur @ x) (LF # join [LF] (y # ys))"
    using 3(2) splitlines_from_line [of x False cur] by simp
  also have "\<dots> = (cur @ x) # splitlines_from False [] (join [LF] (y # ys))"
    by (rule splitlines_from_LF)
  also have "splitlines_from False [] (join [LF] (y # ys)) = y # ys"
    using 3(1) [of "[]"] 3(2) by simp
  finally show ?case by simp
qed

lemma splitlines_join:
  "\<forall>l\<in>set ls. l \<noteq> [] \<and> (\<forall>c\<in>set l. \<not> is_linebreak c) \<Longrightarrow> ls \<noteq> [] \<Longrightarrow>
     splitlines False (join [LF] ls) = ls"
  by (simp add: splitlines_def splitlines_from_join)

lemma takeWhile_dropWhile_prefix:
  assumes "\<forall>x\<in>set xs. P x" and "ys = [] \<or> \<not> P (hd ys)"
  shows "takeWhile P (xs @ ys) = xs" and "dropWhile P (xs @ ys) = ys"
proof -
  have t: "takeWhile P ys = []" and d: "dropWhile P ys = ys"
    using assms(2) by (cases ys; simp)+
  show "takeWhile P (xs @ ys) = xs" using assms(1) t by (simp add: takeWhile_append2)
  show "dropWhile P (xs @ ys) = ys" using assms(1) d by (simp add: dropWhile_append2)
qed

lemma spaces_then:
  assumes "r \<noteq> []" and "hd r \<noteq> SP"
  shows "takeWhile (\<lambda>c. c = SP) (replicate i SP @ r) = replicate i SP"
    and "dropWhile (\<lambda>c. c = SP) (replicate i SP @ r) = r"
  using assms takeWhile_dropWhile_prefix [of "replicate i SP" "\<lambda>c. c = SP" r] by simp_all

lemma ps1_line [simp]:
  "is_ps1 (replicate i SP @ ustr ''>>> '' @ b)"
  "\<not> is_ps2 (replicate i SP @ ustr ''>>> '' @ b)"
  "\<not> is_want (replicate i SP @ ustr ''>>> '' @ b)"
  "takeWhile (\<lambda>c. c = SP) (replicate i SP @ ustr ''>>> '' @ b) = replicate i SP"
  using spaces_then [of "ustr ''>>> '' @ b" i]
  by (simp_all add: is_ps1_def is_ps2_def is_want_def startswith_def ustr_def SP_def)

lemma ps2_line [simp]:
  "is_ps2 (replicate i SP @ ustr ''... '' @ b)"
  using spaces_then [of "ustr ''... '' @ b" i]
  by (simp_all add: is_ps2_def startswith_def ustr_def SP_def)

lemma finditer_lines_example:
  assumes "well_formed_example ex" and "rest = [] \<or> is_ps1 (hd rest)"
  shows "\<exists>want. finditer_lines (example_lines ex @ rest) = match_of ex want # finditer_lines rest"
proof -
  let ?i = "ex_indent ex"
  let ?ps2 = "map (\<lambda>b. replicate ?i SP @ ustr ''... '' @ b) (tl (ex_source ex))"
  have w: "\<forall>x\<in>set (ex_want ex). is_want x" and h: "ex_want ex = [] \<or> \<not> is_ps2 (hd (ex_want ex))"
    using assms(1) by (auto simp: well_formed_example_def list_all_iff)
  have r2: "rest = [] \<or> \<not> is_ps2 (hd rest)" and rw: "rest = [] \<or> \<not> is_want (hd rest)"
    using assms(2) by (auto simp: is_ps1_def is_ps2_def is_want_def startswith_def ustr_def
        dest!: arg_cong [where f = hd])
  have "ex_want ex @ rest = [] \<or> \<not> is_ps2 (hd (ex_want ex @ rest))"
    using h r2 by (cases "ex_want ex") auto
  with takeWhile_dropWhile_prefix [of ?ps2 is_ps2 "ex_want ex @ rest"]
  have t: "takeWhile is_ps2 (?ps2 @ ex_want ex @ rest) = ?ps2"
    and d: "dropWhile is_ps2 (?ps2 @ ex_want ex @ rest) = ex_want ex @ rest"
    by auto
  from takeWhile_dropWhile_prefix [of "ex_want ex" is_want rest] w rw
  have d2: "dropWhile is_want (ex_want ex @ rest) = rest" by auto
  show ?thesis
    by (simp add: example_lines_def prompt_lines_def match_of_def t d d2 Let_def)
qed

lemma example_lines_hd: "is_ps1 (hd (example_lines ex @ rest))"
  by (simp add: example_lines_def prompt_lines_def)

lemma stripped_match_of:
  assumes "well_formed_example ex"
  shows "stripped_source_lines (match_of ex want) = ex_source ex"
proof -
  let ?i = "ex_indent ex"
  have src: "ex_source ex \<noteq> []"
    and nb: "\<forall>b\<in>set (ex_source ex). \<forall>c\<in>set b. \<not> is_linebreak c"
    using assms by (auto simp: well_formed_example_def list_all_iff)
  have "hd (ex_source ex) \<in> set (ex_source ex)" and "set (tl (ex_source ex)) \<subseteq> set (ex_source ex)"
    using src by (auto dest: list.set_sel(2))
  with nb have "\<forall>l\<in>set (prompt_lines ?i (ex_source ex)). l \<noteq> [] \<and> (\<forall>c\<in>set l. \<not> is_linebreak c)"
    by (auto simp: prompt_lines_def ustr_def SP_def is_linebreak_def)
  then have "splitlines False (join [LF] (prompt_lines ?i (ex_source ex))) =
               prompt_lines ?i (ex_source ex)"
    by (rule splitlines_join) (simp add: prompt_lines_def)
  then show ?thesis
    using src by (simp add: stripped_source_lines_def match_of_def prompt_lines_def ustr_def comp_def)
qed

lemma finditer_lines_examples:
  assumes "list_all well_formed_example exs"
  shows "map stripped_source_lines (finditer_lines (concat (map example_lines exs))) =
           map ex_source exs"
  using assms
proof (induction exs)
  case Nil
  then show ?case by simp
next
  case (Cons ex exs)
  let ?rest = "concat (map example_lines exs)"
  have wf: "well_formed_example ex" using Cons.prems by simp
  have "?rest = [] \<or> is_ps1 (hd ?rest)"
    by (cases exs) (simp_all add: example_lines_hd)
  with wf obtain want where
    "finditer_lines (example_lines ex @ ?rest) = match_of ex want # finditer_lines ?rest"
    using finditer_lines_example by blast
  then show ?case
    using Cons wf by (simp add: stripped_match_of)
qed

lemma example_lines_no_LF:
  assumes "well_formed_example ex" and "l \<in> set (example_lines ex)"
  shows "LF \<notin> set l"
proof -
  have src: "ex_source ex \<noteq> []"
    and nb: "\<forall>b\<in>set (ex_source ex). \<forall>c\<in>set b. \<not> is_linebreak c"
    and wl: "\<forall>w\<in>set (ex_want ex). LF \<notin> set w"
    using assms(1) by (auto simp: well_formed_example_def list_all_iff)
  have lb: "is_linebreak LF" by (simp add: is_linebreak_def LF_def)
  have "hd (ex_source ex) \<in> set (ex_source ex)" and "set (tl (ex_source ex)) \<subseteq> set (ex_source ex)"
    using src by (auto dest: list.set_sel(2))
  with nb lb have "\<forall>l\<in>set (prompt_lines (ex_indent ex) (ex_source ex)). LF \<notin> set l"
    by (auto simp: prompt_lines_def ustr_def SP_def LF_def)
  with wl assms(2) show ?thesis by (auto simp: example_lines_def)
qed

lemma examples_lines_no_LF:
  assumes "list_all well_formed_example exs"
  shows "\<forall>l\<in>set (concat (map example_lines exs)). LF \<notin> set l"
  using assms by (auto simp: list_all_iff dest: example_lines_no_LF)

text \<open>
  C5.  The result of \<^verbatim>\<open>parse_doctest\<close> is the source lines of all matches of the
  tab-expanded, dedented text, in order, joined by single line breaks, where every source
  line of a match has lost its first \<open>indent + 4\<close> characters (the indentation of the match's
  first line, the three characters of the prompt and one more) and keeps what follows.
  Every match begins with its indentation (spaces only) and the primary prompt and has at
  least one source line, and its expected output has no part in the result.  Hence, if the
  dedented text is a sequence of well-formed examples, the result is their source lines as
  written behind the prompts, with the expected output gone.  The transcript
  \<^verbatim>\<open>>>> x = 1\<close>, \<^verbatim>\<open>>>> x\<close>, \<^verbatim>\<open>1\<close> gives the two lines \<^verbatim>\<open>x = 1\<close> and \<^verbatim>\<open>x\<close>.
\<close>

theorem parse_doctest_strips_prompts:
  "parse_doctest doctest_txt =
     join [LF] (concat (map stripped_source_lines (finditer (dedent (expandtabs doctest_txt))))) \<and>
   (\<forall>m\<in>set (finditer (dedent (expandtabs doctest_txt))).
      list_all (\<lambda>c. c = SP) (m_indent m) \<and>
      startswith (m_source m) (m_indent m @ ustr ''>>>'') \<and>
      stripped_source_lines m \<noteq> [] \<and>
      stripped_source_lines (m\<lparr>m_want := w\<rparr>) = stripped_source_lines m) \<and>
   (list_all well_formed_example exs \<and> exs \<noteq> [] \<and>
    dedent (expandtabs doctest_txt) = join [LF] (concat (map example_lines exs)) \<longrightarrow>
      parse_doctest doctest_txt = join [LF] (concat (map ex_source exs))) \<and>
   parse_doctest (ustr ''>>> x = 1\<newline>>>> x\<newline>1\<newline>'') = ustr ''x = 1\<newline>x''"
proof (intro conjI ballI impI)
  show lines: "parse_doctest doctest_txt =
     join [LF] (concat (map stripped_source_lines (finditer (dedent (expandtabs doctest_txt)))))" for doctest_txt
    by (rule parse_doctest_lines)
  show "parse_doctest (ustr ''>>> x = 1\<newline>>>> x\<newline>1\<newline>'') = ustr ''x = 1\<newline>x''"
    by (rule parse_doctest_example)
next
  fix m assume m: "m \<in> set (finditer (dedent (expandtabs doctest_txt)))"
  then show "list_all (\<lambda>c. c = SP) (m_indent m)"
    and "startswith (m_source m) (m_indent m @ ustr ''>>>'')"
    unfolding finditer_def by (blast dest: finditer_lines_shape)+
  from m show "stripped_source_lines m \<noteq> []" by (rule finditer_source_nonempty)
  show "stripped_source_lines (m\<lparr>m_want := w\<rparr>) = stripped_source_lines m"
    by (simp add: stripped_source_lines_def)
next
  assume a: "list_all well_formed_example exs \<and> exs \<noteq> [] \<and>
    dedent (expandtabs doctest_txt) = join [LF] (concat (map example_lines exs))"
  let ?ls = "concat (map example_lines exs)"
  from a have "?ls \<noteq> []" by (cases exs) (simp_all add: example_lines_def prompt_lines_def)
  moreover from a have "list_all well_formed_example exs" by simp
  then have "\<forall>l\<in>set ?ls. LF \<notin> set l" by (rule examples_lines_no_LF)
  ultimately have "split_lf (join [LF] ?ls) = ?ls" by (rule split_lf_join)
  with a have "finditer (dedent (expandtabs doctest_txt)) = finditer_lines ?ls"
    by (simp add: finditer_def)
  moreover from a have "map stripped_source_lines (finditer_lines ?ls) = map ex_source exs"
    by (simp add: finditer_lines_examples)
  ultimately show "parse_doctest doctest_txt = join [LF] (concat (map ex_source exs))"
    by (simp add: parse_doctest_lines)
qed

theorem parse_doctest_strips_prompts_witness:
  "list_all well_formed_example loop_examples \<and> loop_examples \<noteq> [] \<and>
   dedent (expandtabs loop_transcript) = join [LF] (concat (map example_lines loop_examples)) \<and>
   parse_doctest loop_transcript = ustr ''for i in x:\<newline>    print(i)\<newline>y = 3''"
  using parse_doctest_strips_prompts [of loop_transcript _ loop_examples]
  by (simp add: loop_transcript_def loop_examples_def well_formed_example_def example_lines_def
      prompt_lines_def doctest_eval text_eval)

section \<open>Unknown node kinds\<close>

lemma unsupported_msg_inj: "unsupported_msg a = unsupported_msg b \<longleftrightarrow> a = b"
  by (auto simp: unsupported_msg_def dest: ustr_inj)

lemma warn_inv_count:
  assumes "warn_inv s"
  shows "count_list (reporter_warnings s) (unsupported_msg k) = (if k \<in> warned s then 1 else 0)"
proof -
  have d: "distinct (reporter_warnings s)"
    and e: "set (reporter_warnings s) = unsupported_msg ` warned s"
    using assms by (simp_all add: warn_inv_def)
  have in_iff: "unsupported_msg k \<in> set (reporter_warnings s) \<longleftrightarrow> k \<in> warned s"
    using e by (auto simp: unsupported_msg_inj)
  have "distinct xs \<Longrightarrow> count_list xs x = (if x \<in> set xs then 1 else 0)" for xs :: "str list" and x
    by (induction xs) auto
  from this [OF d] in_iff show ?thesis by simp
qed

lemma map_of_md_visitors_None:
  "map_of (md_visitors :: (string \<times> 'a translator_scheme visit) list) k = None \<longleftrightarrow>
     k \<notin> set supported_kinds"
  by (simp add: map_of_eq_None_iff supported_kinds_def md_visitors_alt)

lemma unknown_visit_warn_inv:
  assumes "warn_inv s"
  shows "warn_inv (snd (unknown_visit n s))"
  using assms by (auto simp: unknown_visit_def warn_inv_def Let_def unsupported_msg_inj)

text \<open>No method of the tables touches the warnings.\<close>

lemma same_warnings_engine [simp]:
  "same_warnings s (add x sec s)"
  "same_warnings s (ensure_eol s)"
  "same_warnings s (start_level p fp sec s)"
  "same_warnings s (add_section x sec s)"
  by (simp_all add: same_warnings_def add_def ensure_eol_def start_level_def add_section_def
      list_append_def Let_def)

lemma same_warnings_refl [simp]: "same_warnings s s"
  by (simp add: same_warnings_def)

lemma same_warnings_trans: "same_warnings s t \<Longrightarrow> same_warnings t u \<Longrightarrow> same_warnings s u"
  by (simp add: same_warnings_def)

lemma same_warnings_finish_level: "finish_level s = Inr s' \<Longrightarrow> same_warnings s s'"
  by (auto simp: finish_level_def IndentLevel_write_def list_append_def same_warnings_def Let_def
      split: if_splits)

lemma md_visitors_same_warnings:
  assumes "(k, h) \<in> set md_visitors" and "h p n s = Inr (sg, s')"
  shows "same_warnings s s'"
  using assms
  unfolding md_visitors_alt
  by (auto simp: same_warnings_def visit_Text_def visit_comment_def visit_math_block_def
      visit_literal_block_def visit_block_quote_def visit_section_def visit_enumerated_list_def
      visit_bullet_list_def visit_list_item_def visit_subtitle_def visit_docinfo_item_def
      visit_system_message_def visit_title_def visit_transition_def visit_reference_def
      add_def add_section_def start_level_def list_append_def Let_def
      split: if_splits sum.splits option.splits docval.splits)

lemma md_departures_same_warnings:
  assumes "(k, h) \<in> set md_departures" and "h n s = Inr s'"
  shows "same_warnings s s'"
  using assms
  unfolding md_departures_alt
  by (auto simp: same_warnings_def depart_paragraph_def depart_math_block_def
      depart_literal_block_def depart_block_quote_def depart_section_def
      depart_enumerated_list_def depart_bullet_list_def depart_list_item_def depart_title_def
      finish_level_def IndentLevel_write_def ensure_eol_def
      add_def list_append_def Let_def
      split: if_splits sum.splits)

lemma warn_inv_same: "same_warnings s s' \<Longrightarrow> warn_inv s \<Longrightarrow> warn_inv s'"
  by (simp add: same_warnings_def warn_inv_def)

lemma dispatch_visit_warn_inv:
  assumes "dispatch_visit md_visitors p n s = Inr (sg, s')" and "warn_inv s"
  shows "warn_inv s'"
proof (cases "map_of (md_visitors :: (string \<times> 'a translator_scheme visit) list) (kind n)")
  case None
  with assms(1) have "s' = snd (unknown_visit n s)" by (simp add: dispatch_visit_def)
  with assms(2) show ?thesis by (simp add: unknown_visit_warn_inv)
next
  case (Some h)
  with assms(1) have "h p n s = Inr (sg, s')" by (simp add: dispatch_visit_def)
  moreover from Some have "(kind n, h) \<in> set md_visitors" by (rule map_of_SomeD)
  ultimately have "same_warnings s s'" by (rule md_visitors_same_warnings [rotated])
  then show ?thesis using assms(2) by (rule warn_inv_same)
qed

lemma dispatch_departure_warn_inv:
  assumes "dispatch_departure md_departures n s = Inr s'" and "warn_inv s"
  shows "warn_inv s'"
proof (cases "map_of (md_departures :: (string \<times> 'a translator_scheme depart) list) (kind n)")
  case None
  with assms(1) show ?thesis by (simp add: dispatch_departure_def)
next
  case (Some h)
  with assms(1) have "h n s = Inr s'" by (simp add: dispatch_departure_def)
  moreover from Some have "(kind n, h) \<in> set md_departures" by (rule map_of_SomeD)
  ultimately have "same_warnings s s'" by (rule md_departures_same_warnings [rotated])
  then show ?thesis using assms(2) by (rule warn_inv_same)
qed

lemma walkabout_invariant:
  "walkabout V D parent n s = Inr s' \<Longrightarrow>
     (\<And>p n s sg s'. V p n s = Inr (sg, s') \<Longrightarrow> I s \<Longrightarrow> I s') \<Longrightarrow>
     (\<And>n s s'. D n s = Inr s' \<Longrightarrow> I s \<Longrightarrow> I s') \<Longrightarrow> I s \<Longrightarrow> I s'"
  "walk_children V D parent ns s = Inr s' \<Longrightarrow>
     (\<And>p n s sg s'. V p n s = Inr (sg, s') \<Longrightarrow> I s \<Longrightarrow> I s') \<Longrightarrow>
     (\<And>n s s'. D n s = Inr s' \<Longrightarrow> I s \<Longrightarrow> I s') \<Longrightarrow> I s \<Longrightarrow> I s'"
proof (induction V D parent n s and V D parent ns s arbitrary: s' and s'
    rule: walkabout_walk_children.induct)
  case (1 V D parent t s)
  from "1.prems"(1) obtain sg s1 where v: "V parent (Text t) s = Inr (sg, s1)"
    by (auto split: sum.splits)
  then have i1: "I s1" using "1.prems"(2,4) by blast
  show ?case
  proof (cases sg)
    case Proceed
    with v "1.prems"(1) have "D (Text t) s1 = Inr s'" by simp
    then show ?thesis using i1 "1.prems"(3) by blast
  next
    case SkipNode
    with v "1.prems"(1) i1 show ?thesis by simp
  qed
next
  case (2 V D parent k cls attrs sep cs s)
  from "2.prems"(1) obtain sg s1 where v: "V parent (Element k cls attrs sep cs) s = Inr (sg, s1)"
    by (auto split: sum.splits)
  then have i1: "I s1" using "2.prems"(2,4) by blast
  show ?case
  proof (cases sg)
    case Proceed
    with v "2.prems"(1) obtain s2 where w: "walk_children V D (Some k) cs s1 = Inr s2"
      and d: "D (Element k cls attrs sep cs) s2 = Inr s'"
      by (auto split: sum.splits)
    have "I s2"
      using "2.IH" [OF v refl Proceed w "2.prems"(2,3) i1] .
    then show ?thesis using d "2.prems"(3) by blast
  next
    case SkipNode
    with v "2.prems"(1) i1 show ?thesis by simp
  qed
next
  case (3 V D parent s)
  then show ?case by simp
next
  case (4 V D parent c cs s)
  from "4.prems"(1) obtain s1 where w: "walkabout V D parent c s = Inr s1"
    and r: "walk_children V D parent cs s1 = Inr s'"
    by (auto split: sum.splits)
  have i1: "I s1" using "4.IH"(1) [OF w "4.prems"(2,3,4)] .
  show ?case
  proof (rule "4.IH"(2) [OF w r])
    fix p n s sg s'
    assume "V p n s = Inr (sg, s')" and "I s"
    then show "I s'" by (rule "4.prems"(2))
  next
    fix n s s'
    assume "D n s = Inr s'" and "I s"
    then show "I s'" by (rule "4.prems"(3))
  next
    show "I s1" by (rule i1)
  qed
qed

lemma dispatch_visit_warned_mono:
  assumes "dispatch_visit md_visitors p n s = Inr (sg, s')"
  shows "warned s \<subseteq> warned s'"
proof (cases "map_of (md_visitors :: (string \<times> 'a translator_scheme visit) list) (kind n)")
  case None
  with assms have "s' = snd (unknown_visit n s)" by (simp add: dispatch_visit_def)
  then show ?thesis by (auto simp: unknown_visit_def Let_def)
next
  case (Some h)
  with assms have "h p n s = Inr (sg, s')" by (simp add: dispatch_visit_def)
  moreover from Some have "(kind n, h) \<in> set md_visitors" by (rule map_of_SomeD)
  ultimately have "same_warnings s s'" by (rule md_visitors_same_warnings [rotated])
  then show ?thesis by (simp add: same_warnings_def)
qed

lemma dispatch_departure_warned_mono:
  assumes "dispatch_departure md_departures n s = Inr s'"
  shows "warned s \<subseteq> warned s'"
proof (cases "map_of (md_departures :: (string \<times> 'a translator_scheme depart) list) (kind n)")
  case None
  with assms show ?thesis by (simp add: dispatch_departure_def)
next
  case (Some h)
  with assms have "h n s = Inr s'" by (simp add: dispatch_departure_def)
  moreover from Some have "(kind n, h) \<in> set md_departures" by (rule map_of_SomeD)
  ultimately have "same_warnings s s'" by (rule md_departures_same_warnings [rotated])
  then show ?thesis by (simp add: same_warnings_def)
qed

lemma md_walkabout_warn_inv:
  assumes "walkabout (dispatch_visit md_visitors) (dispatch_departure md_departures) parent n s = Inr s'"
    and "warn_inv s \<and> K \<subseteq> warned s"
  shows "warn_inv s' \<and> K \<subseteq> warned s'"
  using assms(1) _ _ assms(2)
proof (rule walkabout_invariant(1))
  fix p n s sg s'
  assume "dispatch_visit md_visitors p n s = Inr (sg, s')" and "warn_inv s \<and> K \<subseteq> warned s"
  then show "warn_inv s' \<and> K \<subseteq> warned s'"
    using dispatch_visit_warn_inv dispatch_visit_warned_mono by blast
next
  fix n s s'
  assume "dispatch_departure md_departures n s = Inr s'" and "warn_inv s \<and> K \<subseteq> warned s"
  then show "warn_inv s' \<and> K \<subseteq> warned s'"
    using dispatch_departure_warn_inv dispatch_departure_warned_mono by blast
qed

lemma walkabout_unknown:
  assumes "kind n \<notin> set supported_kinds"
  shows "walkabout (dispatch_visit md_visitors) (dispatch_departure md_departures) parent n s =
           Inr (snd (unknown_visit n s))"
proof -
  have "map_of (md_visitors :: (string \<times> 'a translator_scheme visit) list) (kind n) = None"
    using assms by (simp add: map_of_md_visitors_None)
  then have v: "dispatch_visit md_visitors parent n s = Inr (unknown_visit n s)"
    by (simp add: dispatch_visit_def)
  have f: "fst (unknown_visit n s) = SkipNode"
    by (simp add: unknown_visit_def Let_def)
  show ?thesis
    using v f by (cases n) (simp_all add: walk_eval del: walkabout.simps)
qed

text \<open>
  C6.  Let the warnings agree with the set of warned kinds (as they do in a new translator).
  The traversal of a node of a kind without a visit method returns without error, skips the
  node's children and departure, and changes nothing but the warnings: the message for the
  kind is added unless the kind was warned about before.  Afterwards there is exactly one
  warning for that kind.  Any traversal, of any tree, that returns keeps the agreement and
  the kinds warned about, so at its end every kind has one warning if it was met and none
  otherwise.
\<close>

theorem unknown_kind_warned_once:
  assumes "warn_inv s"
  shows "(kind n \<notin> set supported_kinds \<longrightarrow>
           (let s' = (if kind n \<in> warned s then s
                      else s\<lparr>reporter_warnings := reporter_warnings s @ [unsupported_msg (kind n)],
                             warned := insert (kind n) (warned s)\<rparr>)
            in walkabout (dispatch_visit md_visitors) (dispatch_departure md_departures) parent n s =
                 Inr s' \<and>
               count_list (reporter_warnings s') (unsupported_msg (kind n)) = 1 \<and>
               warn_inv s')) \<and>
         (walkabout (dispatch_visit md_visitors) (dispatch_departure md_departures) parent n s = Inr t \<longrightarrow>
            warn_inv t \<and> warned s \<subseteq> warned t \<and>
            (\<forall>k. count_list (reporter_warnings t) (unsupported_msg k) =
                   (if k \<in> warned t then 1 else 0)))"
proof (intro conjI impI)
  assume unknown: "kind n \<notin> set supported_kinds"
  define s' where "s' = (if kind n \<in> warned s then s
                   else s\<lparr>reporter_warnings := reporter_warnings s @ [unsupported_msg (kind n)],
                          warned := insert (kind n) (warned s)\<rparr>)"
  have eq: "snd (unknown_visit n s) = s'"
    by (simp add: unknown_visit_def s'_def Let_def)
  have w: "walkabout (dispatch_visit md_visitors) (dispatch_departure md_departures) parent n s = Inr s'"
    using walkabout_unknown [OF unknown, of parent s] eq by simp
  have inv: "warn_inv s'"
    using unknown_visit_warn_inv [OF assms, of n] eq by simp
  have mem: "kind n \<in> warned s'" by (simp add: s'_def)
  have c: "count_list (reporter_warnings s') (unsupported_msg (kind n)) = 1"
    using warn_inv_count [OF inv, of "kind n"] mem by simp
  show "let s' = (if kind n \<in> warned s then s
                  else s\<lparr>reporter_warnings := reporter_warnings s @ [unsupported_msg (kind n)],
                         warned := insert (kind n) (warned s)\<rparr>)
        in walkabout (dispatch_visit md_visitors) (dispatch_departure md_departures) parent n s =
             Inr s' \<and>
           count_list (reporter_warnings s') (unsupported_msg (kind n)) = 1 \<and>
           warn_inv s'"
    unfolding Let_def s'_def [symmetric] using w c inv by blast
next
  assume run: "walkabout (dispatch_visit md_visitors) (dispatch_departure md_departures) parent n s = Inr t"
  have "warn_inv s \<and> warned s \<subseteq> warned s" using assms by simp
  with run have *: "warn_inv t \<and> warned s \<subseteq> warned t" by (rule md_walkabout_warn_inv)
  then show "warn_inv t" and "warned s \<subseteq> warned t" by simp_all
  from * show "\<forall>k. count_list (reporter_warnings t) (unsupported_msg k) =
                   (if k \<in> warned t then 1 else 0)"
    by (simp add: warn_inv_count)
qed

lemma figure_unsupported: "''figure'' \<notin> set supported_kinds"
  by (simp add: supported_kinds_def md_visitors_alt)

theorem unknown_kind_warned_once_witness:
  "warn_inv init_translator \<and> kind (figure_node []) \<notin> set supported_kinds \<and>
   (case walkabout (dispatch_visit md_visitors) (dispatch_departure md_departures) None
           two_figures_doc init_translator of
      Inr t \<Rightarrow> reporter_warnings t = [ustr ''The figure element is not supported.''] \<and>
               warned t = {''figure''} \<and> heap t body_addr = [ustr ''shown'', [LF], [LF]]
    | Inl e \<Rightarrow> False)"
  using unknown_kind_warned_once [of init_translator "figure_node []" None]
  by (simp add: two_figures_doc_def figure_node_def figure_unsupported warn_inv_def
      md_eval engine_eval text_eval md_visit_simps md_depart_simps
      unknown_visit_def unsupported_msg_def walk_eval del: walkabout.simps)

section \<open>Literal blocks in a plotted region\<close>

text \<open>
  C7.  The first literal block of an \<^verbatim>\<open>nbplot_rendered\<close> region becomes a code cell, but
  \<^verbatim>\<open>add_code_block\<close> flushes the text, and \<^verbatim>\<open>flush_text\<close> ends with \<^verbatim>\<open>reset\<close>, which clears
  \<^verbatim>\<open>_in_nbplot\<close> although the traversal is still inside the region.  The translator after
  the first block is a new one but for the cell, and a second literal block of the same
  region is rendered as a fenced block in a Markdown cell.
\<close>

theorem second_literal_block_fenced:
  "dispatch_visit nb_visitors (Some ''nbplot_rendered'') (literal_block_node ''a = 1'')
      (visit_nbplot_rendered init_nb_translator) =
     Inr (SkipNode, init_nb_translator\<lparr>cells := [Code (ustr ''a = 1'')]\<rparr>) \<and>
   in_nbplot (init_nb_translator\<lparr>cells := [Code (ustr ''a = 1'')]\<rparr>) = False \<and>
   nb_translate two_literal_blocks_doc =
     Inr [Code (ustr ''a = 1''), Markdown (ustr ''```\<newline>b = 2\<newline>```'')]"
  by (simp add: two_literal_blocks_doc_def literal_block_node_def nb_eval engine_eval text_eval
      nb_visit_simps nb_depart_simps walk_eval fun_upd_const del: walkabout.simps)

section \<open>Flushing the text\<close>

text \<open>
  C8.  \<^verbatim>\<open>flush_text\<close> takes the text of the three regions (\<^verbatim>\<open>astext\<close> of doctree2md),
  strips the whitespace at both ends, and appends a Markdown cell holding the stripped text
  if and only if it is not empty, that is, unless the text is all whitespace.  Whether or
  not a cell was added, the three regions are emptied, the section level is 0, the list
  prefixes and the indentation levels are empty, the metadata is the initial one and the
  plotted-region flag is off.
\<close>

theorem flush_text_resets:
  "flush_text s =
     s\<lparr>heap := (heap s)(head_addr := [], body_addr := [], foot_addr := []),
       section_level := 0,
       list_prefixes := [],
       indent_levels := [],
       docinfo := init_docinfo,
       in_nbplot := False,
       cells := cells s @ (if list_all is_space (fst (astext s)) then []
                           else [Markdown (strip (fst (astext s)))])\<rparr>"
  by (simp add: flush_text_def nb_reset_def reset_def add_text_block_def Let_def split_beta
      strip_Nil_iff astext_def drop_trailing_eols_def drop_eol_def head_addr_def body_addr_def
      foot_addr_def)

theorem flush_text_resets_witness:
  "cells (flush_text blank_list_item_state) = [Code (ustr ''x'')] \<and>
   heap (flush_text blank_list_item_state) body_addr = [] \<and>
   indent_levels (flush_text blank_list_item_state) = [] \<and>
   list_prefixes (flush_text blank_list_item_state) = [] \<and>
   section_level (flush_text blank_list_item_state) = 0 \<and>
   in_nbplot (flush_text blank_list_item_state) = False \<and>
   cells (flush_text (add_section (ustr '' Intro.\<newline>'') Body blank_list_item_state)) =
     [Code (ustr ''x''), Markdown (ustr ''Intro.'')]"
  using flush_text_resets [of blank_list_item_state]
    flush_text_resets [of "add_section (ustr '' Intro.\<newline>'') Body blank_list_item_state"]
  by (simp add: blank_list_item_state_def init_nb_translator_def engine_eval text_eval)

section \<open>Finalization\<close>

text \<open>
  C9.  \<^verbatim>\<open>astext\<close> of doctree2md drops from each of the three region lists (head, body,
  foot) a single trailing fragment if and only if that fragment is exactly a line break, and
  returns the fragments of head, then body, then foot, concatenated with nothing between
  them.  The second component is the translator afterwards, with the three lists so
  shortened.
\<close>

theorem astext_finalize:
  "astext s =
     (concat (drop_single_eol (heap s head_addr)) @
      concat (drop_single_eol (heap s body_addr)) @
      concat (drop_single_eol (heap s foot_addr)),
      s\<lparr>heap := (heap s)(head_addr := drop_single_eol (heap s head_addr),
                           body_addr := drop_single_eol (heap s body_addr),
                           foot_addr := drop_single_eol (heap s foot_addr))\<rparr>)"
  by (simp add: astext_def drop_trailing_eols_def drop_eol_def drop_single_eol_def Let_def
      head_addr_def body_addr_def foot_addr_def fun_upd_twist)

theorem astext_finalize_witness:
  "fst (astext three_region_state) = ustr ''# Tx\<newline>'' \<and>
   heap (snd (astext three_region_state)) body_addr = [ustr ''x'', [LF]] \<and>
   heap (snd (astext three_region_state)) foot_addr = []"
  using astext_finalize [of three_region_state]
  by (simp add: three_region_state_def add_section_def list_append_def init_translator_def
      drop_single_eol_def head_addr_def body_addr_def foot_addr_def ustr_def LF_def)

section \<open>Comments\<close>

text \<open>
  C10.  For every comment node the Markdown translator appends the one fragment
  \<^verbatim>\<open><!-- \<close> + the comment's text + \<^verbatim>\<open> -->\<close> + line break to the current output (the
  innermost indentation level, or the body) and raises SkipNode: the traversal of the node
  ends there, without visiting the children.  Nothing else of the translator changes; in
  particular no warning is recorded.
\<close>

theorem visit_comment_html:
  "dispatch_visit md_visitors parent (Element ''comment'' cls attrs sep cs) s =
     Inr (SkipNode,
          s\<lparr>heap := (heap s)(get_current_output Body s :=
              heap s (get_current_output Body s) @
                [ustr ''<!-- '' @ join sep (map node_astext cs) @ ustr '' -->'' @ [LF]])\<rparr>) \<and>
   walkabout (dispatch_visit md_visitors) (dispatch_departure md_departures) parent
     (Element ''comment'' cls attrs sep cs) s =
     Inr (s\<lparr>heap := (heap s)(get_current_output Body s :=
            heap s (get_current_output Body s) @
              [ustr ''<!-- '' @ join sep (map node_astext cs) @ ustr '' -->'' @ [LF]])\<rparr>)"
  by (simp add: md_visit_simps visit_comment_def add_def list_append_def)

theorem visit_comment_html_witness:
  "(case walkabout (dispatch_visit md_visitors) (dispatch_departure md_departures) None
           comment_node init_translator of
      Inr s' \<Rightarrow> heap s' body_addr = [ustr ''<!-- hi -->\<newline>''] \<and> reporter_warnings s' = []
    | Inl e \<Rightarrow> False)"
  using visit_comment_html [of None "[]" "[]" "[]" "[Text (ustr ''hi'')]" init_translator]
  by (simp add: comment_node_def init_translator_def get_current_output_def body_addr_def
      ustr_def LF_def)

end
